theory Spec2Isabelle
  imports Complex_Main "HOL-Library.AList"
begin

section \<open>Python strings\<close>

text \<open>
  A Python \<open>str\<close> is modelled as a \<open>string\<close>, one \<open>char\<close> per code point; the model
  covers the code points below 256. The log lines are split from the file with
  \<open>readlines()\<close> and \<open>rstrip("\n")\<close>, so they hold no line feed at their end.
\<close>

text \<open>\<open>str.startswith(prefix)\<close>.\<close>

fun startswith :: "string \<Rightarrow> string \<Rightarrow> bool" where
  "startswith s [] = True"
| "startswith [] (p # ps) = False"
| "startswith (c # cs) (p # ps) = (c = p \<and> startswith cs ps)"

text \<open>
  \<open>str.isspace\<close> on one code point below 256: the characters Python strips and splits at
  (tab, line feed, vertical tab, form feed, carriage return, the four separators
  \<open>0x1c\<close> to \<open>0x1f\<close>, space, next line \<open>0x85\<close> and no-break space \<open>0xa0\<close>).
\<close>

definition py_isspace :: "char \<Rightarrow> bool" where
  "py_isspace c = (of_char c \<in> {9, 10, 11, 12, 13, 28, 29, 30, 31, 32, 133, 160 :: nat})"

text \<open>\<open>str.lstrip()\<close> with no argument.\<close>

definition lstrip :: "string \<Rightarrow> string" where
  "lstrip s = dropWhile py_isspace s"

text \<open>
  \<open>str.split(sep)\<close> for a non-empty separator: the pieces between the occurrences of
  \<open>sep\<close>, found from the left without overlap. \<open>acc\<close> is the piece being read, reversed.
\<close>

function split_from :: "string \<Rightarrow> string \<Rightarrow> string \<Rightarrow> string list" where
  "split_from sep acc [] = [rev acc]"
| "split_from sep acc (c # cs) =
     (if sep \<noteq> [] \<and> startswith (c # cs) sep
      then rev acc # split_from sep [] (drop (length sep) (c # cs))
      else split_from sep (c # acc) cs)"
  by pat_completeness auto
termination
  by (relation "measure (\<lambda>(sep, acc, s). length s)") auto

text \<open>The exceptions of Python that the modelled code can raise.\<close>

datatype exn =
    ValueError | TypeError | IndexError | KeyError | AttributeError
  | OverflowError | NotImplementedError

text \<open>\<open>str.split(sep)\<close>: an empty separator raises \<open>ValueError\<close>.\<close>

definition py_split :: "string \<Rightarrow> string \<Rightarrow> exn + string list" where
  "py_split s sep = (if sep = [] then Inl ValueError else Inr (split_from sep [] s))"

text \<open>\<open>xs[i]\<close> for an index that is not negative: out of range raises \<open>IndexError\<close>.\<close>

definition py_index :: "'a list \<Rightarrow> nat \<Rightarrow> exn + 'a" where
  "py_index xs i = (if i < length xs then Inr (xs ! i) else Inl IndexError)"

text \<open>
  \<open>LF._update_line_types\<close>, the expression
  \<open>raw_line.split(line_type.prefix)[1].lstrip()\<close>: what is handed to the line type.
\<close>

definition end_of_line :: "string \<Rightarrow> string \<Rightarrow> exn + string" where
  "end_of_line raw_line prefix =
     (case py_split raw_line prefix of
        Inl e \<Rightarrow> Inl e
      | Inr parts \<Rightarrow>
          (case py_index parts 1 of
             Inl e \<Rightarrow> Inl e
           | Inr part \<Rightarrow> Inr (lstrip part)))"

section \<open>Values\<close>

text \<open>
  The Python objects the parsers produce. A \<open>float\<close> is carried, never computed with;
  a \<open>timedelta\<close> is its number of microseconds; a \<open>datetime\<close> is a day number and the
  microseconds of the day, a \<open>time\<close> the microseconds of the day. \<open>VNaT\<close> is
  \<open>pd.NaT\<close>, \<open>VFloat NaN\<close> is \<open>float("nan")\<close>, \<open>VNone\<close> is \<open>None\<close>.
\<close>

datatype pyfloat = NaN | PosInf | NegInf | Fnum real

datatype datetime = DateTime (date_of: int) (time_of: int)

datatype val =
    VNone
  | VInt int
  | VFloat pyfloat
  | VStr string
  | VTimeDelta int
  | VDateTime datetime
  | VTime int
  | VNaT
  | VList "val list"

subsection \<open>The builtin \<open>int\<close> on a string\<close>

definition digit_val :: "char \<Rightarrow> nat option" where
  "digit_val c =
     (let n = of_char c :: nat in if 48 \<le> n \<and> n \<le> 57 then Some (n - 48) else None)"

text \<open>
  The digits of a decimal literal: one underscore may stand between two digits.
  \<open>after_digit\<close> says that the character before was a digit.
\<close>

fun digits_value :: "bool \<Rightarrow> nat \<Rightarrow> string \<Rightarrow> nat option" where
  "digits_value after_digit acc [] = (if after_digit then Some acc else None)"
| "digits_value after_digit acc (c # cs) =
     (if c = CHR ''_'' then (if after_digit then digits_value False acc cs else None)
      else (case digit_val c of
              None \<Rightarrow> None
            | Some d \<Rightarrow> digits_value True (10 * acc + d) cs))"

text \<open>
  The white space that \<open>int\<close> skips around the literal: the characters of
  \<open>str.isspace\<close> but for the four separators \<open>0x1c\<close> to \<open>0x1f\<close>, which \<open>int\<close>
  refuses.
\<close>

definition int_isspace :: "char \<Rightarrow> bool" where
  "int_isspace c = (of_char c \<in> {9, 10, 11, 12, 13, 32, 133, 160 :: nat})"

definition int_strip :: "string \<Rightarrow> string" where
  "int_strip s = rev (dropWhile int_isspace (rev (dropWhile int_isspace s)))"

text \<open>
  The limit of \<open>int\<close> on the digits of a decimal literal
  (\<open>sys.int_info.default_max_str_digits\<close>).
\<close>

definition max_str_digits :: nat where
  "max_str_digits = 4300"

text \<open>
  \<open>int(s)\<close> in base ten: white space around the literal is skipped, one sign is
  allowed, and anything else raises \<open>ValueError\<close>, as does a literal of more than
  \<open>max_str_digits\<close> digits (the underscores are not counted).
\<close>

definition py_int :: "string \<Rightarrow> exn + int" where
  "py_int s =
     (let t = int_strip s;
          (neg, body) = (case t of
                           [] \<Rightarrow> (False, [])
                         | c # cs \<Rightarrow> if c = CHR ''-'' then (True, cs)
                                    else if c = CHR ''+'' then (False, cs)
                                    else (False, t))
      in case digits_value False 0 body of
           None \<Rightarrow> Inl ValueError
         | Some n \<Rightarrow>
             if max_str_digits < length (filter (\<lambda>c. c \<noteq> CHR ''_'') body) then Inl ValueError
             else Inr (if neg then - int n else int n))"

text \<open>
  \<open>dt.timedelta(hours=h, minutes=m, seconds=s)\<close> on integers: exact, and
  \<open>OverflowError\<close> when the number of days leaves \<open>\<plusminus>999999999\<close>.
\<close>

definition timedelta_hms :: "int \<Rightarrow> int \<Rightarrow> int \<Rightarrow> exn + val" where
  "timedelta_hms h m s =
     (let secs = h * 3600 + m * 60 + s; days = secs div 86400
      in if - 999999999 \<le> days \<and> days \<le> 999999999
         then Inr (VTimeDelta (secs * 1000000)) else Inl OverflowError)"

text \<open>
  \<open>str.split()\<close> with no argument: the maximal runs of characters that are not white
  space. \<open>acc\<close> is the run being read, reversed.
\<close>

fun split_ws_from :: "string \<Rightarrow> string \<Rightarrow> string list" where
  "split_ws_from acc [] = (if acc = [] then [] else [rev acc])"
| "split_ws_from acc (c # cs) =
     (if py_isspace c
      then (if acc = [] then split_ws_from [] cs else rev acc # split_ws_from [] cs)
      else split_ws_from (c # acc) cs)"

definition split_ws :: "string \<Rightarrow> string list" where
  "split_ws s = split_ws_from [] s"

section \<open>The parsers of \<open>lf_helpers.py\<close>\<close>

subsection \<open>\<open>Data\<close>, \<open>LastData\<close>, \<open>AllData\<close>\<close>

text \<open>
  \<open>LastData._value\<close> is one object (\<open>None\<close> at first), \<open>AllData._value\<close> a list.
\<close>

datatype data_value = LastData val | AllData "val list"

record data =
  header :: string
  no_values :: nat
  subheaders :: "string list option"
  data_value :: data_value

text \<open>\<open>LastData.update\<close> and \<open>AllData.update\<close>.\<close>

definition update :: "data \<Rightarrow> val \<Rightarrow> data" where
  "update d v =
     (case data_value d of
        LastData _ \<Rightarrow> d\<lparr>data_value := LastData v, no_values := 1\<rparr>
      | AllData xs \<Rightarrow> d\<lparr>data_value := AllData (xs @ [v]), no_values := no_values d + 1\<rparr>)"

text \<open>\<open>data_factory\<close>.\<close>

definition data_factory :: "string \<Rightarrow> string \<Rightarrow> string list option \<Rightarrow> exn + data" where
  "data_factory data_type hdr subhdrs =
     (if data_type = ''last''
      then Inr \<lparr>header = hdr, no_values = 0, subheaders = subhdrs, data_value = LastData VNone\<rparr>
      else if data_type = ''all''
      then Inr \<lparr>header = hdr, no_values = 0, subheaders = subhdrs, data_value = AllData []\<rparr>
      else Inl ValueError)"

subsection \<open>\<open>Parser\<close> and its subclasses\<close>

text \<open>
  The \<open>exclude\<close> argument of a parser: \<open>None\<close> by default, annotated \<open>str\<close>, and any
  container of strings is accepted by the membership test \<open>raw_line in self._exclude\<close>.
\<close>

datatype exclude = ExcludeNone | ExcludeStr string | ExcludeList "string list"

text \<open>\<open>x in s\<close> on two strings: \<open>x\<close> occurs in \<open>s\<close>.\<close>

fun contains :: "string \<Rightarrow> string \<Rightarrow> bool" where
  "contains [] x = (x = [])"
| "contains (c # cs) x = (startswith (c # cs) x \<or> contains cs x)"

text \<open>
  \<open>raw_line in self._exclude\<close>: \<open>TypeError\<close> on \<open>None\<close>, the substring test on a
  string, membership in a list.
\<close>

definition py_in :: "string \<Rightarrow> exclude \<Rightarrow> exn + bool" where
  "py_in raw_line excl =
     (case excl of
        ExcludeNone \<Rightarrow> Inl TypeError
      | ExcludeStr s \<Rightarrow> Inr (contains s raw_line)
      | ExcludeList xs \<Rightarrow> Inr (raw_line \<in> set xs))"

text \<open>
  A \<open>Parser\<close> object. \<open>convert\<close> is the abstract method \<open>_process_line\<close> as the subclass
  defines it and \<open>nan\<close> the subclass's \<open>_nan\<close>. \<open>parser_no_values\<close> is the parser's own
  attribute \<open>no_values\<close>, which \<open>__init__\<close> sets to 0 (the running count is the one of
  \<open>data\<close>).
\<close>

record parser =
  name :: string
  prefix :: string
  is_index :: bool
  before_index :: bool
  exclude :: exclude
  parser_no_values :: nat
  data_type :: string
  data :: data
  nan :: val
  convert :: "string \<Rightarrow> exn + val"

text \<open>\<open>Parser.__init__\<close>, with the subclass's \<open>_process_line\<close> and \<open>_nan\<close>.\<close>

definition Parser_init ::
  "(string \<Rightarrow> exn + val) \<Rightarrow> val \<Rightarrow> string \<Rightarrow> string \<Rightarrow> string \<Rightarrow> exclude \<Rightarrow> bool \<Rightarrow> bool
     \<Rightarrow> exn + parser" where
  "Parser_init conv nan_value nm pre dtype excl is_idx before_idx =
     (case data_factory dtype nm None of
        Inl e \<Rightarrow> Inl e
      | Inr d \<Rightarrow>
          Inr \<lparr>name = nm, prefix = pre, is_index = is_idx, before_index = before_idx,
               exclude = excl, parser_no_values = 0, data_type = dtype, data = d,
               nan = nan_value, convert = conv\<rparr>)"

text \<open>
  \<open>Parser.process_line\<close>: the conversion, the exclusion set consulted in the handler of
  \<open>ValueError\<close> only, then \<open>self.data.update\<close>. No other exception is caught.
\<close>

definition process_line :: "parser \<Rightarrow> string \<Rightarrow> exn + parser" where
  "process_line p raw_line =
     (case convert p raw_line of
        Inr processed_line \<Rightarrow> Inr (p\<lparr>data := update (data p) processed_line\<rparr>)
      | Inl e \<Rightarrow>
          if e = ValueError
          then (case py_in raw_line (exclude p) of
                  Inl e' \<Rightarrow> Inl e'
                | Inr True \<Rightarrow> Inr (p\<lparr>data := update (data p) (nan p)\<rparr>)
                | Inr False \<Rightarrow> Inl e)
          else Inl e)"

text \<open>
  The builtins a conversion calls on floats and dates are parameters of the model:
  \<open>float(s)\<close>, \<open>dt.datetime.strptime(s, code)\<close>, \<open>dt.timedelta(hours=f)\<close> and
  \<open>dt.timedelta(seconds=f)\<close>, each with the exception it may raise.
\<close>

type_synonym float_of = "string \<Rightarrow> exn + pyfloat"
type_synonym strptime = "string \<Rightarrow> string \<Rightarrow> exn + datetime"
type_synonym timedelta_of = "pyfloat \<Rightarrow> exn + val"

text \<open>A list comprehension \<open>[f(x) for x in xs]\<close> whose \<open>f\<close> may raise.\<close>

fun map_exn :: "('a \<Rightarrow> exn + 'b) \<Rightarrow> 'a list \<Rightarrow> exn + 'b list" where
  "map_exn f [] = Inr []"
| "map_exn f (x # xs) =
     (case f x of
        Inl e \<Rightarrow> Inl e
      | Inr y \<Rightarrow> (case map_exn f xs of Inl e \<Rightarrow> Inl e | Inr ys \<Rightarrow> Inr (y # ys)))"

text \<open>\<open>DateTimeParser._process_line\<close> and \<open>TimeParser._process_line\<close>.\<close>

definition datetime_process_line :: "strptime \<Rightarrow> string \<Rightarrow> string \<Rightarrow> exn + val" where
  "datetime_process_line strp code raw =
     (case strp raw code of Inl e \<Rightarrow> Inl e | Inr d \<Rightarrow> Inr (VDateTime d))"

definition time_process_line :: "strptime \<Rightarrow> string \<Rightarrow> string \<Rightarrow> exn + val" where
  "time_process_line strp code raw =
     (case strp raw code of Inl e \<Rightarrow> Inl e | Inr d \<Rightarrow> Inr (VTime (time_of d)))"

text \<open>
  \<open>TimeDeltaHMSParser._process_line\<close>: unpacking \<open>raw.split(":")\<close> into three names
  raises \<open>ValueError\<close> unless there are three pieces.
\<close>

definition timedelta_hms_process_line :: "string \<Rightarrow> exn + val" where
  "timedelta_hms_process_line raw =
     (case py_split raw '':'' of
        Inl e \<Rightarrow> Inl e
      | Inr [h, m, s] \<Rightarrow>
          (case py_int h of
             Inl e \<Rightarrow> Inl e
           | Inr hi \<Rightarrow>
               (case py_int m of
                  Inl e \<Rightarrow> Inl e
                | Inr mi \<Rightarrow>
                    (case py_int s of
                       Inl e \<Rightarrow> Inl e
                     | Inr si \<Rightarrow> timedelta_hms hi mi si)))
      | Inr _ \<Rightarrow> Inl ValueError)"

text \<open>The first piece of \<open>raw.split(sep)\<close>.\<close>

definition first_piece :: "string \<Rightarrow> string \<Rightarrow> exn + string" where
  "first_piece raw sep =
     (case py_split raw sep of Inl e \<Rightarrow> Inl e | Inr parts \<Rightarrow> py_index parts 0)"

text \<open>\<open>TimeDeltaHParser._process_line\<close> and \<open>TimeDeltaSParser._process_line\<close>.\<close>

definition timedelta_h_process_line :: "float_of \<Rightarrow> timedelta_of \<Rightarrow> string \<Rightarrow> exn + val" where
  "timedelta_h_process_line flt td_hours raw =
     (case first_piece raw ''hrs'' of
        Inl e \<Rightarrow> Inl e
      | Inr h \<Rightarrow> (case flt h of Inl e \<Rightarrow> Inl e | Inr f \<Rightarrow> td_hours f))"

definition timedelta_s_process_line :: "float_of \<Rightarrow> timedelta_of \<Rightarrow> string \<Rightarrow> exn + val" where
  "timedelta_s_process_line flt td_seconds raw =
     (case first_piece raw ''s'' of
        Inl e \<Rightarrow> Inl e
      | Inr s \<Rightarrow> (case flt s of Inl e \<Rightarrow> Inl e | Inr f \<Rightarrow> td_seconds f))"

text \<open>\<open>FloatParser._process_line\<close> and \<open>FloatSplitParser._process_line\<close>.\<close>

definition float_process_line :: "float_of \<Rightarrow> string \<Rightarrow> exn + val" where
  "float_process_line flt raw = (case flt raw of Inl e \<Rightarrow> Inl e | Inr f \<Rightarrow> Inr (VFloat f))"

definition float_split_process_line :: "float_of \<Rightarrow> string \<Rightarrow> string \<Rightarrow> exn + val" where
  "float_split_process_line flt split raw =
     (case first_piece raw split of
        Inl e \<Rightarrow> Inl e
      | Inr piece \<Rightarrow> float_process_line flt piece)"

text \<open>\<open>StringParser._process_line\<close> and \<open>StringSplitParser._process_line\<close>.\<close>

definition string_process_line :: "string \<Rightarrow> exn + val" where
  "string_process_line raw = Inr (VStr raw)"

definition string_split_process_line :: "string \<Rightarrow> string \<Rightarrow> exn + val" where
  "string_split_process_line split raw =
     (case first_piece raw split of Inl e \<Rightarrow> Inl e | Inr piece \<Rightarrow> Inr (VStr piece))"

text \<open>
  \<open>TimeFloatMultParser._process_line\<close>: every piece as a float, then the first one
  replaced by a duration; \<open>processed[0]\<close> raises \<open>IndexError\<close> on a line with no piece.
\<close>

definition time_float_mult_process_line :: "float_of \<Rightarrow> timedelta_of \<Rightarrow> string \<Rightarrow> exn + val" where
  "time_float_mult_process_line flt td_hours raw =
     (case map_exn flt (split_ws raw) of
        Inl e \<Rightarrow> Inl e
      | Inr [] \<Rightarrow> Inl IndexError
      | Inr (f # fs) \<Rightarrow>
          (case td_hours f of
             Inl e \<Rightarrow> Inl e
           | Inr d \<Rightarrow> Inr (VList (d # map VFloat fs))))"

text \<open>
  The constructors of the subclasses: each passes its \<open>_process_line\<close> and sets its
  \<open>_nan\<close>. The keyword arguments of \<open>Parser.__init__\<close> come last, in its order.
\<close>

definition DateTimeParser ::
  "strptime \<Rightarrow> string \<Rightarrow> string \<Rightarrow> string \<Rightarrow> string \<Rightarrow> exclude \<Rightarrow> bool \<Rightarrow> bool \<Rightarrow> exn + parser" where
  "DateTimeParser strp code = Parser_init (datetime_process_line strp code) VNaT"

definition TimeParser ::
  "strptime \<Rightarrow> string \<Rightarrow> string \<Rightarrow> string \<Rightarrow> string \<Rightarrow> exclude \<Rightarrow> bool \<Rightarrow> bool \<Rightarrow> exn + parser" where
  "TimeParser strp code = Parser_init (time_process_line strp code) VNaT"

definition TimeDeltaHMSParser ::
  "string \<Rightarrow> string \<Rightarrow> string \<Rightarrow> exclude \<Rightarrow> bool \<Rightarrow> bool \<Rightarrow> exn + parser" where
  "TimeDeltaHMSParser = Parser_init timedelta_hms_process_line VNaT"

definition TimeDeltaHParser ::
  "float_of \<Rightarrow> timedelta_of \<Rightarrow> string \<Rightarrow> string \<Rightarrow> string \<Rightarrow> exclude \<Rightarrow> bool \<Rightarrow> bool
     \<Rightarrow> exn + parser" where
  "TimeDeltaHParser flt td_hours = Parser_init (timedelta_h_process_line flt td_hours) VNaT"

definition TimeDeltaSParser ::
  "float_of \<Rightarrow> timedelta_of \<Rightarrow> string \<Rightarrow> string \<Rightarrow> string \<Rightarrow> exclude \<Rightarrow> bool \<Rightarrow> bool
     \<Rightarrow> exn + parser" where
  "TimeDeltaSParser flt td_seconds = Parser_init (timedelta_s_process_line flt td_seconds) VNaT"

definition FloatParser ::
  "float_of \<Rightarrow> string \<Rightarrow> string \<Rightarrow> string \<Rightarrow> exclude \<Rightarrow> bool \<Rightarrow> bool \<Rightarrow> exn + parser" where
  "FloatParser flt = Parser_init (float_process_line flt) (VFloat NaN)"

definition FloatSplitParser ::
  "float_of \<Rightarrow> string \<Rightarrow> string \<Rightarrow> string \<Rightarrow> string \<Rightarrow> exclude \<Rightarrow> bool \<Rightarrow> bool \<Rightarrow> exn + parser" where
  "FloatSplitParser flt split = Parser_init (float_split_process_line flt split) (VFloat NaN)"

definition StringParser ::
  "string \<Rightarrow> string \<Rightarrow> string \<Rightarrow> exclude \<Rightarrow> bool \<Rightarrow> bool \<Rightarrow> exn + parser" where
  "StringParser = Parser_init string_process_line (VStr [])"

definition StringSplitParser ::
  "string \<Rightarrow> string \<Rightarrow> string \<Rightarrow> string \<Rightarrow> exclude \<Rightarrow> bool \<Rightarrow> bool \<Rightarrow> exn + parser" where
  "StringSplitParser split = Parser_init (string_split_process_line split) (VStr [])"

text \<open>
  \<open>TimeFloatMultParser.__init__\<close>: \<open>_nan\<close> is one \<open>nan\<close> for each subheader, and
  \<open>data\<close> is made again with the subheaders.
\<close>

definition TimeFloatMultParser ::
  "float_of \<Rightarrow> timedelta_of \<Rightarrow> string list \<Rightarrow> string \<Rightarrow> string \<Rightarrow> string \<Rightarrow> exclude \<Rightarrow> bool \<Rightarrow> bool
     \<Rightarrow> exn + parser" where
  "TimeFloatMultParser flt td_hours subhdrs nm pre dtype excl is_idx before_idx =
     (case Parser_init (time_float_mult_process_line flt td_hours)
             (VList (map (\<lambda>header. VFloat NaN) subhdrs)) nm pre dtype excl is_idx before_idx of
        Inl e \<Rightarrow> Inl e
      | Inr p \<Rightarrow>
          (case data_factory (data_type p) (name p) (Some subhdrs) of
             Inl e \<Rightarrow> Inl e
           | Inr d \<Rightarrow> Inr (p\<lparr>data := d\<rparr>)))"


subsection \<open>\<open>Data.get_value\<close>\<close>

text \<open>
  A pandas data frame, as far as \<open>get_value\<close> uses it: the labels of the columns and
  the rows, each row with one cell for each column. A label is a position (the default
  labels \<open>0, 1, ...\<close>) or a string.
\<close>

datatype label = Position nat | Name string

record dataframe =
  columns :: "label list"
  rows :: "val list list"

text \<open>
  \<open>pd.DataFrame(values)\<close> on a list. An empty list gives a frame with no row and no
  column. When the first element is a list and every element is a list of that length,
  each element is a row and the columns are labelled \<open>0, 1, ...\<close>; when no element is
  a list, the frame has the one column \<open>0\<close>. What pandas makes of any other list (rows
  of unequal length, which it fills by the type of the column, or lists among other
  objects) is a parameter, with the exception it may raise.
\<close>

type_synonym frame_of_mixed = "val list \<Rightarrow> exn + dataframe"

fun is_row :: "nat \<Rightarrow> val \<Rightarrow> bool" where
  "is_row width (VList cells) = (length cells = width)"
| "is_row width _ = False"

fun is_list :: "val \<Rightarrow> bool" where
  "is_list (VList cells) = True"
| "is_list _ = False"

fun cells_of :: "val \<Rightarrow> val list" where
  "cells_of (VList cells) = cells"
| "cells_of _ = []"

definition frame_of_list :: "frame_of_mixed \<Rightarrow> val list \<Rightarrow> exn + dataframe" where
  "frame_of_list pd_mixed vals =
     (case vals of
        [] \<Rightarrow> Inr \<lparr>columns = [], rows = []\<rparr>
      | VList first_row # _ \<Rightarrow>
          if list_all (is_row (length first_row)) vals
          then Inr \<lparr>columns = map Position [0..<length first_row], rows = map cells_of vals\<rparr>
          else pd_mixed vals
      | _ # _ \<Rightarrow>
          if list_ex is_list vals then pd_mixed vals
          else Inr \<lparr>columns = [Position 0], rows = map (\<lambda>v. [v]) vals\<rparr>)"

text \<open>\<open>df.empty\<close>: no row or no column.\<close>

definition empty_frame :: "dataframe \<Rightarrow> bool" where
  "empty_frame frame \<longleftrightarrow> rows frame = [] \<or> columns frame = []"

text \<open>
  \<open>df.set_axis(labels, axis=1, inplace=True)\<close>: \<open>ValueError\<close> unless there is one
  label for each column.
\<close>

definition set_axis :: "string list \<Rightarrow> dataframe \<Rightarrow> exn + dataframe" where
  "set_axis labels frame =
     (if length labels = length (columns frame)
      then Inr (frame\<lparr>columns := map Name labels\<rparr>)
      else Inl ValueError)"

text \<open>\<open>df.drop(label, axis=1, inplace=True)\<close>: every column of that label goes.\<close>

definition keep_cells :: "label list \<Rightarrow> label \<Rightarrow> val list \<Rightarrow> val list" where
  "keep_cells labels l cells = map snd (filter (\<lambda>(l', c). l' \<noteq> l) (zip labels cells))"

definition drop_column :: "label \<Rightarrow> dataframe \<Rightarrow> dataframe" where
  "drop_column l frame =
     \<lparr>columns = filter (\<lambda>l'. l' \<noteq> l) (columns frame),
      rows = map (keep_cells (columns frame) l) (rows frame)\<rparr>"

text \<open>\<open>df.rename(columns={old: new}, inplace=True)\<close>.\<close>

definition rename_column :: "label \<Rightarrow> label \<Rightarrow> dataframe \<Rightarrow> dataframe" where
  "rename_column old new frame =
     frame\<lparr>columns := map (\<lambda>l. if l = old then new else l) (columns frame)\<rparr>"

text \<open>\<open>list.remove(x)\<close>: the first occurrence goes; \<open>ValueError\<close> when there is none.\<close>

definition list_remove :: "'a \<Rightarrow> 'a list \<Rightarrow> exn + 'a list" where
  "list_remove x xs = (if x \<in> set xs then Inr (remove1 x xs) else Inl ValueError)"

text \<open>What a \<open>get_value\<close> returns: the object of a \<open>LastData\<close>, the frame of an \<open>AllData\<close>.\<close>

datatype py_object = Object val | Frame dataframe

text \<open>
  The four statements under \<open>if index_key is not None\<close> (the column assigned from
  \<open>index_df\<close>, \<open>dropna\<close>, \<open>drop_duplicates\<close>, \<open>set_index\<close>) are calls of pandas
  alone: they are a parameter, from the key, the frame of the index and the frame.
\<close>

type_synonym indexing = "string \<Rightarrow> dataframe option \<Rightarrow> dataframe \<Rightarrow> exn + dataframe"

text \<open>\<open>AllData._column_to_remove\<close>.\<close>

definition column_to_remove :: string where
  "column_to_remove = ''simulated_duplicate''"

text \<open>
  \<open>LastData.get_value\<close> and \<open>AllData.get_value\<close>: what is returned or raised, and the
  \<open>Data\<close> object as the call leaves it (\<open>self._subheaders.remove\<close> changes it).
\<close>

definition get_value ::
  "frame_of_mixed \<Rightarrow> indexing \<Rightarrow> string option \<Rightarrow> dataframe option \<Rightarrow> data
     \<Rightarrow> (exn + py_object) \<times> data" where
  "get_value pd_mixed pandas_index index_key index_df d =
     (case data_value d of
        LastData v \<Rightarrow> (Inr (Object v), d)
      | AllData vals \<Rightarrow>
          (case frame_of_list pd_mixed vals of
             Inl e \<Rightarrow> (Inl e, d)
           | Inr frame \<Rightarrow>
               if empty_frame frame then (Inr (Frame frame), d)
               else
                 (case (case subheaders d of
                          Some subhdrs \<Rightarrow>
                            (case set_axis subhdrs frame of
                               Inl e \<Rightarrow> (Inl e, d)
                             | Inr named \<Rightarrow>
                                 if Name column_to_remove \<in> set (columns named)
                                 then (case list_remove column_to_remove subhdrs of
                                         Inl e \<Rightarrow> (Inl e, d)
                                       | Inr subhdrs' \<Rightarrow>
                                           (Inr (drop_column (Name column_to_remove) named),
                                            d\<lparr>subheaders := Some subhdrs'\<rparr>))
                                 else (Inr named, d))
                        | None \<Rightarrow>
                            (Inr (rename_column (hd (columns frame)) (Name (header d)) frame), d)) of
                    (Inl e, d') \<Rightarrow> (Inl e, d')
                  | (Inr frame', d') \<Rightarrow>
                      (case index_key of
                         None \<Rightarrow> (Inr (Frame frame'), d')
                       | Some key \<Rightarrow>
                           (case pandas_index key index_df frame' of
                              Inl e \<Rightarrow> (Inl e, d')
                            | Inr indexed \<Rightarrow> (Inr (Frame indexed), d'))))))"

subsection \<open>\<open>State\<close>, \<open>UnsteadyState\<close>, \<open>SteadyState\<close>\<close>

text \<open>
  \<open>UnsteadyState._progress_data\<close> is the \<open>Data\<close> object of the parser \<open>progress\<close>
  itself, so the state is modelled with what that object holds when it is asked.
\<close>

datatype state = SteadyState | UnsteadyState data

text \<open>\<open>state_factory\<close>: \<open>UnsteadyState.__init__\<close> looks the parser \<open>progress\<close> up.\<close>

definition state_factory :: "bool \<Rightarrow> (string \<rightharpoonup> parser) \<Rightarrow> exn + state" where
  "state_factory is_steady extracted =
     (if is_steady = True then Inr SteadyState
      else (case extracted ''progress'' of
              None \<Rightarrow> Inl KeyError
            | Some p \<Rightarrow> Inr (UnsteadyState (data p))))"

text \<open>\<open>SteadyState.report_progress\<close> and \<open>UnsteadyState.report_progress\<close>.\<close>

definition state_report_progress ::
  "frame_of_mixed \<Rightarrow> indexing \<Rightarrow> state \<Rightarrow> (exn + py_object) \<times> state" where
  "state_report_progress pd_mixed pandas_index s =
     (case s of
        SteadyState \<Rightarrow> (Inl NotImplementedError, s)
      | UnsteadyState d \<Rightarrow>
          (case get_value pd_mixed pandas_index None None d of
             (Inl e, d') \<Rightarrow> (Inl e, UnsteadyState d')
           | (Inr progress, d') \<Rightarrow>
               (if progress = Object VNone then Inr (Object (VInt 0)) else Inr progress,
                UnsteadyState d')))"

text \<open>
  Sequencing for the examples: \<open>p = Class(...)\<close> followed by \<open>p.process_line(raw_line)\<close>,
  then what \<open>p.data\<close> holds, and \<open>p._nan\<close>.
\<close>

definition then_process_line :: "exn + parser \<Rightarrow> string \<Rightarrow> exn + parser" where
  "then_process_line r raw_line =
     (case r of Inl e \<Rightarrow> Inl e | Inr p \<Rightarrow> process_line p raw_line)"

definition recorded :: "exn + parser \<Rightarrow> exn + data_value" where
  "recorded r = (case r of Inl e \<Rightarrow> Inl e | Inr p \<Rightarrow> Inr (data_value (data p)))"

definition sentinel :: "exn + parser \<Rightarrow> exn + val" where
  "sentinel r = (case r of Inl e \<Rightarrow> Inl e | Inr p \<Rightarrow> Inr (nan p))"

text \<open>
  The \<open>Data\<close> object of a \<open>TimeFloatMultParser\<close> with the subheaders
  \<open>simulated_duplicate\<close> and \<open>inflow\<close>, after one line.
\<close>

definition plot_data :: data where
  "plot_data =
     \<lparr>header = ''plot'', no_values = 1,
      subheaders = Some [''simulated_duplicate'', ''inflow''],
      data_value = AllData [VList [VTimeDelta 3600000000, VFloat (Fnum 2)]]\<rparr>"

section \<open>The log file reader of \<open>lf.py\<close>\<close>

subsection \<open>Line types\<close>

text \<open>
  Modelled from the spec: the \<open>LineType\<close> classes that \<open>lf.py\<close> instantiates and calls
  (\<open>prefix\<close>, \<open>index\<close>, \<open>before_index\<close>, \<open>type\<close>, \<open>value\<close>, \<open>no_values\<close>, \<open>_nan\<close>,
  \<open>process_line_wrapper\<close>, \<open>update_value_wrapper\<close>) are not among the sources. Following
  the spec's FieldSpec and FieldAccumulator, a line type holds its prefix, its two flags,
  its missing sentinel, an accumulator that is either a single value (\<open>None\<close> at first) or
  an ordered sequence, and the count of the values recorded; \<open>lt_names\<close> holds the column
  names of a line type of class \<open>TimeFloatMult\<close> and is \<open>None\<close> for every other class.
  The conversion \<open>process_line_wrapper\<close> is a parameter of the line type.
\<close>

datatype accumulator = Latest val | AllAppend "val list"

record line_type =
  lt_prefix :: string
  lt_index :: bool
  lt_before_index :: bool
  lt_nan :: val
  lt_names :: "string list option"
  process_line_wrapper :: "string \<Rightarrow> exn + val"
  lt_value :: accumulator
  lt_no_values :: nat

text \<open>\<open>line_type.type == "many"\<close>.\<close>

definition is_many :: "line_type \<Rightarrow> bool" where
  "is_many line_type = (case lt_value line_type of AllAppend _ \<Rightarrow> True | Latest _ \<Rightarrow> False)"

text \<open>
  Modelled from the spec: \<open>update_value_wrapper\<close> (``append/overwrite into the field's
  accumulator''), with the counts of \<open>AllData.update\<close> and \<open>LastData.update\<close>.
\<close>

definition update_value_wrapper :: "line_type \<Rightarrow> val \<Rightarrow> line_type" where
  "update_value_wrapper line_type v =
     (case lt_value line_type of
        Latest _ \<Rightarrow> line_type\<lparr>lt_value := Latest v, lt_no_values := 1\<rparr>
      | AllAppend xs \<Rightarrow>
          line_type\<lparr>lt_value := AllAppend (xs @ [v]), lt_no_values := lt_no_values line_type + 1\<rparr>)"

subsection \<open>The state of an \<open>LF\<close> object\<close>

text \<open>
  \<open>data_to_extract\<close> is the table \<open>_data_to_extract\<close> in its order, each sub-dictionary
  standing as the line type that its class makes of it; \<open>extracted_data\<close> is the
  dictionary \<open>_extracted_data\<close>. \<open>attributes\<close> holds the names set by \<open>_set_attributes\<close>
  and \<open>df\<close> the data frame, \<open>None\<close> while the object has no such attribute.
  \<open>reports_progress\<close> says that \<open>report_progress\<close> is bound to \<open>_report_progress\<close>
  (and not to \<open>_no_report_progress\<close>). \<open>_raw_data\<close> is read afresh by every \<open>_read\<close>
  before it is used, so the lines of the file are an argument of \<open>read\<close>.
\<close>

type_synonym table = "(string \<times> val list) list"

record lf =
  data_to_extract :: "(string \<times> line_type) list"
  extracted_data :: "string \<rightharpoonup> line_type"
  no_lines :: nat
  no_iters :: nat
  attributes :: "string set"
  df :: "table option"
  reports_progress :: bool

text \<open>
  A method returns the object as it has left it, and the exception if it raised one.
\<close>

type_synonym outcome = "exn option \<times> lf"

text \<open>\<open>for x in xs: body\<close>, left at the first exception.\<close>

fun for_each :: "('a \<Rightarrow> lf \<Rightarrow> outcome) \<Rightarrow> 'a list \<Rightarrow> lf \<Rightarrow> outcome" where
  "for_each body [] st = (None, st)"
| "for_each body (x # xs) st =
     (case body x st of
        (None, st') \<Rightarrow> for_each body xs st'
      | (Some e, st') \<Rightarrow> (Some e, st'))"

text \<open>One statement after another.\<close>

definition and_then :: "outcome \<Rightarrow> (lf \<Rightarrow> outcome) \<Rightarrow> outcome" where
  "and_then r f = (case r of (None, st) \<Rightarrow> f st | (Some e, st) \<Rightarrow> (Some e, st))"

text \<open>The keys of \<open>_data_to_extract\<close>, in the order of the dictionary.\<close>

definition keys :: "lf \<Rightarrow> string list" where
  "keys st = map fst (data_to_extract st)"

text \<open>\<open>LF._init_counters\<close> and \<open>LF._init_line_types\<close>.\<close>

definition init_counters :: "lf \<Rightarrow> lf" where
  "init_counters st = st\<lparr>no_lines := 0, no_iters := 0\<rparr>"

definition init_line_types :: "lf \<Rightarrow> lf" where
  "init_line_types st = st\<lparr>extracted_data := map_of (data_to_extract st)\<rparr>"

subsection \<open>\<open>LF._sync_cols\<close>\<close>

text \<open>The body of the loop, on one line type; \<open>n\<close> is \<open>self._no_iters\<close>.\<close>

definition sync_line_type :: "nat \<Rightarrow> line_type \<Rightarrow> line_type" where
  "sync_line_type n line_type =
     (if lt_index line_type = False
      then (if is_many line_type \<and>
               lt_no_values line_type < n + (if lt_before_index line_type then 1 else 0)
            then update_value_wrapper line_type (lt_nan line_type)
            else line_type)
      else line_type)"

definition sync_key :: "string \<Rightarrow> lf \<Rightarrow> outcome" where
  "sync_key key st =
     (case extracted_data st key of
        None \<Rightarrow> (Some KeyError, st)
      | Some line_type \<Rightarrow>
          (None, st\<lparr>extracted_data := (extracted_data st)
                     (key \<mapsto> sync_line_type (no_iters st) line_type)\<rparr>))"

definition sync_cols :: "lf \<Rightarrow> outcome" where
  "sync_cols st = for_each sync_key (keys st) st"

subsection \<open>\<open>LF._final_sync_cols\<close>\<close>

text \<open>The first loop: the length of the longest list.\<close>

fun max_length_from :: "int \<Rightarrow> string list \<Rightarrow> (string \<rightharpoonup> line_type) \<Rightarrow> exn + int" where
  "max_length_from max_length [] ed = Inr max_length"
| "max_length_from max_length (key # ks) ed =
     (case ed key of
        None \<Rightarrow> Inl KeyError
      | Some line_type \<Rightarrow>
          (case lt_value line_type of
             AllAppend xs \<Rightarrow> max_length_from (max max_length (int (length xs))) ks ed
           | Latest _ \<Rightarrow> max_length_from max_length ks ed))"

text \<open>The body of the second loop, on one line type.\<close>

definition final_sync_line_type :: "int \<Rightarrow> line_type \<Rightarrow> line_type" where
  "final_sync_line_type max_length line_type =
     (case lt_value line_type of
        AllAppend xs \<Rightarrow>
          if int (length xs) = max_length - 1
          then update_value_wrapper line_type (lt_nan line_type)
          else if int (length xs) = max_length - 2
          then update_value_wrapper (update_value_wrapper line_type (lt_nan line_type))
                 (lt_nan line_type)
          else line_type
      | Latest _ \<Rightarrow> line_type)"

definition final_sync_key :: "int \<Rightarrow> string \<Rightarrow> lf \<Rightarrow> outcome" where
  "final_sync_key max_length key st =
     (case extracted_data st key of
        None \<Rightarrow> (Some KeyError, st)
      | Some line_type \<Rightarrow>
          (None, st\<lparr>extracted_data := (extracted_data st)
                     (key \<mapsto> final_sync_line_type max_length line_type)\<rparr>))"

definition final_sync_cols :: "lf \<Rightarrow> outcome" where
  "final_sync_cols st =
     (case max_length_from 0 (keys st) (extracted_data st) of
        Inl e \<Rightarrow> (Some e, st)
      | Inr max_length \<Rightarrow> for_each (final_sync_key max_length) (keys st) st)"

subsection \<open>\<open>LF._update_line_types\<close>\<close>

text \<open>
  The statements under \<open>if raw_line.startswith(line_type.prefix)\<close>, for the line type
  of \<open>key\<close>.
\<close>

definition store_line :: "string \<Rightarrow> string \<Rightarrow> lf \<Rightarrow> outcome" where
  "store_line raw_line key st =
     (case extracted_data st key of
        None \<Rightarrow> (Some KeyError, st)
      | Some line_type \<Rightarrow>
          (case end_of_line raw_line (lt_prefix line_type) of
             Inl e \<Rightarrow> (Some e, st)
           | Inr eol \<Rightarrow>
               (case process_line_wrapper line_type eol of
                  Inl e \<Rightarrow> (Some e, st)
                | Inr processed_line \<Rightarrow>
                    and_then
                      (None, st\<lparr>extracted_data := (extracted_data st)
                               (key \<mapsto> update_value_wrapper line_type processed_line)\<rparr>)
                      (\<lambda>st1. if lt_index line_type = True
                             then and_then (sync_cols st1)
                                    (\<lambda>st2. (None, st2\<lparr>no_iters := no_iters st2 + 1\<rparr>))
                             else (None, st1)))))"

text \<open>The body of the loop over the line types, for one raw line.\<close>

definition process_key :: "string \<Rightarrow> string \<Rightarrow> lf \<Rightarrow> outcome" where
  "process_key raw_line key st =
     (case extracted_data st key of
        None \<Rightarrow> (Some KeyError, st)
      | Some line_type \<Rightarrow>
          if startswith raw_line (lt_prefix line_type)
          then store_line raw_line key st
          else (None, st))"

text \<open>The body of the loop over the raw lines.\<close>

definition process_raw_line :: "string \<Rightarrow> lf \<Rightarrow> outcome" where
  "process_raw_line raw_line st =
     and_then (for_each (process_key raw_line) (keys st) st)
       (\<lambda>st'. (None, st'\<lparr>no_lines := no_lines st' + 1\<rparr>))"

definition update_line_types :: "string list \<Rightarrow> lf \<Rightarrow> outcome" where
  "update_line_types raw_data st = for_each process_raw_line (drop (no_lines st) raw_data) st"

subsection \<open>Attributes and the data frame\<close>

text \<open>\<open>LF._set_attributes\<close> and \<open>LF._del_attributes\<close>.\<close>

definition set_attribute :: "string \<Rightarrow> lf \<Rightarrow> outcome" where
  "set_attribute key st =
     (case extracted_data st key of
        None \<Rightarrow> (Some KeyError, st)
      | Some line_type \<Rightarrow> (None, st\<lparr>attributes := insert key (attributes st)\<rparr>))"

definition set_attributes :: "lf \<Rightarrow> outcome" where
  "set_attributes st = for_each set_attribute (keys st) st"

definition del_attribute :: "string \<Rightarrow> lf \<Rightarrow> outcome" where
  "del_attribute key st =
     (if key \<in> attributes st then (None, st\<lparr>attributes := attributes st - {key}\<rparr>)
      else (Some AttributeError, st))"

definition del_attributes :: "lf \<Rightarrow> outcome" where
  "del_attributes st = for_each del_attribute (keys st) st"

text \<open>\<open>LF._del_dataframe\<close>.\<close>

definition del_dataframe :: "lf \<Rightarrow> outcome" where
  "del_dataframe st =
     (case df st of None \<Rightarrow> (Some AttributeError, st) | Some _ \<Rightarrow> (None, st\<lparr>df := None\<rparr>))"

text \<open>
  \<open>item[i]\<close> for an item of a value list: an element of a list, a character of a
  string, and \<open>TypeError\<close> for an object that cannot be subscripted.
\<close>

definition item_at :: "nat \<Rightarrow> val \<Rightarrow> exn + val" where
  "item_at i item =
     (case item of
        VList ys \<Rightarrow> py_index ys i
      | VStr s \<Rightarrow> (case py_index s i of Inl e \<Rightarrow> Inl e | Inr c \<Rightarrow> Inr (VStr [c]))
      | _ \<Rightarrow> Inl TypeError)"

text \<open>
  The loop \<open>for i in range(no_names)\<close>, from the index \<open>i\<close> on. The dictionary \<open>run\<close>
  keeps the place of a key that is assigned again.
\<close>

fun add_columns :: "string list \<Rightarrow> nat \<Rightarrow> val list \<Rightarrow> table \<Rightarrow> exn + table" where
  "add_columns [] i items run = Inr run"
| "add_columns (new_key # names) i items run =
     (case map_exn (item_at i) items of
        Inl e \<Rightarrow> Inl e
      | Inr new_value \<Rightarrow> add_columns names (Suc i) items (AList.update new_key new_value run))"

text \<open>
  The loop of \<open>LF._create_dataframe\<close> over the line types. The tests on the
  sub-dictionary (\<open>type\<close>, \<open>class\<close>, \<open>names\<close>) are read from the line type that was made
  from it.
\<close>

fun collect_run :: "string list \<Rightarrow> (string \<rightharpoonup> line_type) \<Rightarrow> table \<Rightarrow> exn + table" where
  "collect_run [] ed run = Inr run"
| "collect_run (key # ks) ed run =
     (case ed key of
        None \<Rightarrow> Inl KeyError
      | Some line_type \<Rightarrow>
          (case lt_value line_type of
             AllAppend items \<Rightarrow>
               (case lt_names line_type of
                  Some names \<Rightarrow>
                    (case add_columns names 0 items run of
                       Inl e \<Rightarrow> Inl e
                     | Inr run' \<Rightarrow> collect_run ks ed run')
                | None \<Rightarrow> collect_run ks ed (AList.update key items run))
           | Latest _ \<Rightarrow> collect_run ks ed run))"

text \<open>
  \<open>pd.DataFrame(run)\<close> for a dictionary of lists: the columns in the order of the
  dictionary, and \<open>ValueError\<close> when two lists differ in length.
\<close>

definition same_lengths :: "table \<Rightarrow> bool" where
  "same_lengths run =
     (case run of [] \<Rightarrow> True | (_, col) # rest \<Rightarrow> list_all (\<lambda>(_, c). length c = length col) rest)"

definition pd_DataFrame :: "table \<Rightarrow> exn + table" where
  "pd_DataFrame run = (if same_lengths run then Inr run else Inl ValueError)"

definition create_dataframe :: "lf \<Rightarrow> outcome" where
  "create_dataframe st =
     (case collect_run (keys st) (extracted_data st) [] of
        Inl e \<Rightarrow> (Some e, st)
      | Inr run \<Rightarrow>
          (case pd_DataFrame run of
             Inl e \<Rightarrow> (Some e, st)
           | Inr frame \<Rightarrow> (None, st\<lparr>df := Some frame\<rparr>)))"

subsection \<open>\<open>LF._read\<close>\<close>

definition read :: "bool \<Rightarrow> bool \<Rightarrow> string list \<Rightarrow> lf \<Rightarrow> outcome" where
  "read force_reread suppress_final_steps raw_data st =
     and_then
       (if force_reread = True
        then and_then (and_then (del_attributes st) del_dataframe)
               (\<lambda>st'. (None, init_line_types (init_counters st')))
        else (None, st))
       (\<lambda>st1. and_then (update_line_types raw_data st1)
          (\<lambda>st2. if \<not> suppress_final_steps
                 then and_then (and_then (final_sync_cols st2) set_attributes) create_dataframe
                 else (None, st2)))"

subsection \<open>Making an \<open>LF1\<close> or an \<open>LF2\<close> object, and \<open>report_progress\<close>\<close>

text \<open>
  The tables of \<open>lf_params.py\<close> are not among the sources: they are parameters.
\<close>

record lf_params =
  lf1_unsteady_data_to_extract :: "(string \<times> line_type) list"
  lf1_steady_data_to_extract :: "(string \<times> line_type) list"
  lf2_data_to_extract :: "(string \<times> line_type) list"

datatype lf_class = LF1 (steady: bool) | LF2

text \<open>\<open>LF1._init_params_and_progress\<close> and \<open>LF2._init_params_and_progress\<close>.\<close>

definition init_params_and_progress :: "lf_params \<Rightarrow> lf_class \<Rightarrow> lf \<Rightarrow> lf" where
  "init_params_and_progress params cls st =
     (case cls of
        LF1 is_steady \<Rightarrow>
          if is_steady
          then st\<lparr>data_to_extract := lf1_steady_data_to_extract params, reports_progress := False\<rparr>
          else st\<lparr>data_to_extract := lf1_unsteady_data_to_extract params, reports_progress := True\<rparr>
      | LF2 \<Rightarrow> st\<lparr>data_to_extract := lf2_data_to_extract params, reports_progress := True\<rparr>)"

text \<open>The object before \<open>__init__\<close> has set anything.\<close>

definition blank :: lf where
  "blank = \<lparr>data_to_extract = [], extracted_data = Map.empty, no_lines = 0, no_iters = 0,
            attributes = {}, df = None, reports_progress = False\<rparr>"

text \<open>\<open>LF.__init__\<close> up to the first \<open>_read\<close>, and \<open>LF.__init__\<close>.\<close>

definition before_read :: "lf_params \<Rightarrow> lf_class \<Rightarrow> lf" where
  "before_read params cls = init_line_types (init_params_and_progress params cls (init_counters blank))"

definition LF_init :: "lf_params \<Rightarrow> lf_class \<Rightarrow> string list \<Rightarrow> outcome" where
  "LF_init params cls raw_data = read False False raw_data (before_read params cls)"





subsection \<open>What a read keeps and what it changes\<close>

text \<open>
  The line type \<open>b\<close> is \<open>a\<close> after some updates: the same prefix, flags, sentinel,
  names, conversion and retention, and for a list no fewer values counted.
\<close>

definition advances :: "line_type \<Rightarrow> line_type \<Rightarrow> bool" where
  "advances a b \<longleftrightarrow>
     lt_prefix b = lt_prefix a \<and> lt_index b = lt_index a \<and>
     lt_before_index b = lt_before_index a \<and> lt_nan b = lt_nan a \<and>
     lt_names b = lt_names a \<and> process_line_wrapper b = process_line_wrapper a \<and>
     is_many b = is_many a \<and> (is_many a \<longrightarrow> lt_no_values a \<le> lt_no_values b)"

text \<open>
  The object \<open>s'\<close> is \<open>s\<close> after some reading: the same table and the same keys in
  \<open>_extracted_data\<close>, every line type advanced, and no counter decreased.
\<close>

definition evolves :: "lf \<Rightarrow> lf \<Rightarrow> bool" where
  "evolves s s' \<longleftrightarrow>
     data_to_extract s' = data_to_extract s \<and> reports_progress s' = reports_progress s \<and>
     no_lines s \<le> no_lines s' \<and> no_iters s \<le> no_iters s' \<and>
     (\<forall>key. rel_option advances (extracted_data s key) (extracted_data s' key))"

text \<open>
  The dictionaries of an object made by \<open>__init__\<close>: the keys of the table are distinct
  (it is a dictionary), and each has its line type in \<open>_extracted_data\<close>.
\<close>

definition well_formed :: "lf \<Rightarrow> bool" where
  "well_formed st \<longleftrightarrow>
     distinct (keys st) \<and> list_all (\<lambda>key. extracted_data st key \<noteq> None) (keys st)"

text \<open>The line types whose prefix a raw line starts with.\<close>

definition matching :: "lf \<Rightarrow> string \<Rightarrow> string \<Rightarrow> bool" where
  "matching st raw_line key =
     (case extracted_data st key of
        None \<Rightarrow> False
      | Some line_type \<Rightarrow> startswith raw_line (lt_prefix line_type))"

text \<open>
  The line types that count an iteration at a raw line (the index, when the line starts
  with its prefix), and the number of iterations that \<open>_update_line_types\<close> counts
  over some raw lines: one for each raw line and each such line type.
\<close>

definition marks_iteration :: "lf \<Rightarrow> string \<Rightarrow> string \<Rightarrow> bool" where
  "marks_iteration st raw_line key =
     (case extracted_data st key of
        None \<Rightarrow> False
      | Some line_type \<Rightarrow> lt_index line_type \<and> startswith raw_line (lt_prefix line_type))"

definition iterations_in :: "lf \<Rightarrow> string list \<Rightarrow> nat" where
  "iterations_in st raw_lines =
     sum_list (map (\<lambda>raw_line. length (filter (marks_iteration st raw_line) (keys st))) raw_lines)"

text \<open>
  The number of values that \<open>_sync_cols\<close> asks of a line type when \<open>n\<close> iterations are
  counted: \<open>self._no_iters + int(line_type.before_index)\<close>.
\<close>

definition sync_bound :: "nat \<Rightarrow> line_type \<Rightarrow> nat" where
  "sync_bound n line_type = n + (if lt_before_index line_type then 1 else 0)"

text \<open>
  Every list that is not the index is at most one value short of what \<open>_sync_cols\<close>
  asks: the state of the lists whenever \<open>_sync_cols\<close> is called.
\<close>

definition sync_ready :: "lf \<Rightarrow> bool" where
  "sync_ready st =
     list_all (\<lambda>key. case extracted_data st key of
                       None \<Rightarrow> True
                     | Some line_type \<Rightarrow>
                         lt_index line_type \<or> \<not> is_many line_type \<or>
                         sync_bound (no_iters st) line_type \<le> lt_no_values line_type + 1)
       (keys st)"

text \<open>The values and the count of the line type of a key (nothing for a missing key).\<close>

definition values_of :: "lf \<Rightarrow> string \<Rightarrow> accumulator option" where
  "values_of st key = map_option lt_value (extracted_data st key)"

definition count_of :: "lf \<Rightarrow> string \<Rightarrow> nat option" where
  "count_of st key = map_option lt_no_values (extracted_data st key)"

text \<open>
  The length that the first loop of \<open>_final_sync_cols\<close> finds (\<open>max_length\<close>), and the
  number of sentinels that its second loop appends to a list of \<open>n\<close> values.
\<close>

definition longest :: "lf \<Rightarrow> int" where
  "longest st =
     (case max_length_from 0 (keys st) (extracted_data st) of Inr max_length \<Rightarrow> max_length | Inl _ \<Rightarrow> 0)"

definition final_padding :: "int \<Rightarrow> nat \<Rightarrow> nat" where
  "final_padding max_length n =
     (if int n = max_length - 1 then 1 else if int n = max_length - 2 then 2 else 0)"

text \<open>
  Every list that is not the index has the number of values that \<open>_sync_cols\<close> asks:
  the state of the lists when \<open>_sync_cols\<close> returns.
\<close>

definition synced :: "lf \<Rightarrow> bool" where
  "synced st =
     list_all (\<lambda>key. case extracted_data st key of
                       None \<Rightarrow> True
                     | Some line_type \<Rightarrow>
                         lt_index line_type \<or> \<not> is_many line_type \<or>
                         sync_bound (no_iters st) line_type \<le> lt_no_values line_type)
       (keys st)"

text \<open>An object whose dictionaries are well formed and whose lists are ready for a sync.\<close>

definition ready_object :: "lf \<Rightarrow> bool" where
  "ready_object st \<longleftrightarrow> well_formed st \<and> sync_ready st"

text \<open>
  The value that a line type of the latest-value kind holds after some raw lines, from
  the value \<open>v\<close> it held before: the conversion of the last line that starts with its
  prefix (a line whose conversion raises ends the read).
\<close>

fun latest_value :: "line_type \<Rightarrow> val \<Rightarrow> string list \<Rightarrow> val" where
  "latest_value line_type v [] = v"
| "latest_value line_type v (raw_line # raw_lines) =
     (if startswith raw_line (lt_prefix line_type)
      then (case end_of_line raw_line (lt_prefix line_type) of
              Inl e \<Rightarrow> v
            | Inr eol \<Rightarrow>
                (case process_line_wrapper line_type eol of
                   Inl e \<Rightarrow> v
                 | Inr processed_line \<Rightarrow> latest_value line_type processed_line raw_lines))
      else latest_value line_type v raw_lines)"

text \<open>
  The line type of \<open>key\<close> in the object is \<open>line_type\<close> after some updates, and the value
  it holds is \<open>v\<close>.
\<close>

definition latest_is :: "lf \<Rightarrow> string \<Rightarrow> line_type \<Rightarrow> val \<Rightarrow> bool" where
  "latest_is st key line_type v =
     (case extracted_data st key of
        None \<Rightarrow> False
      | Some a \<Rightarrow> advances line_type a \<and> lt_value a = Latest v)"


subsection \<open>An example table\<close>

text \<open>
  A table of two line types, both lists: \<open>iter\<close>, a string read before the index, and
  \<open>elapsed\<close>, the index, read by the conversion of \<open>TimeDeltaHMSParser\<close>; and a table of
  three, with \<open>progress\<close>, of which the latest value is kept, read by the conversion of
  \<open>StringSplitParser\<close> up to the percent sign.
\<close>

definition iter_line_type :: line_type where
  "iter_line_type =
     \<lparr>lt_prefix = ''ITER:'', lt_index = False, lt_before_index = True, lt_nan = VStr [],
      lt_names = None, process_line_wrapper = string_process_line,
      lt_value = AllAppend [], lt_no_values = 0\<rparr>"

definition elapsed_line_type :: line_type where
  "elapsed_line_type =
     \<lparr>lt_prefix = ''ELAPSED:'', lt_index = True, lt_before_index = False, lt_nan = VNaT,
      lt_names = None, process_line_wrapper = timedelta_hms_process_line,
      lt_value = AllAppend [], lt_no_values = 0\<rparr>"

definition progress_line_type :: line_type where
  "progress_line_type =
     \<lparr>lt_prefix = ''PROGRESS:'', lt_index = False, lt_before_index = False, lt_nan = VStr [],
      lt_names = None, process_line_wrapper = string_split_process_line ''%'',
      lt_value = Latest VNone, lt_no_values = 0\<rparr>"

definition example_table :: "(string \<times> line_type) list" where
  "example_table = [(''iter'', iter_line_type), (''elapsed'', elapsed_line_type)]"

definition example_params :: lf_params where
  "example_params =
     \<lparr>lf1_unsteady_data_to_extract = example_table @ [(''progress'', progress_line_type)],
      lf1_steady_data_to_extract = example_table,
      lf2_data_to_extract = example_table\<rparr>"

text \<open>The table of an object, set as \<open>_init_params_and_progress\<close> sets it.\<close>

definition with_table :: "(string \<times> line_type) list \<Rightarrow> lf" where
  "with_table tbl = init_line_types ((init_counters blank)\<lparr>data_to_extract := tbl, reports_progress := True\<rparr>)"

text \<open>The data frame of an outcome, when nothing was raised.\<close>

definition frame_of :: "outcome \<Rightarrow> exn + table option" where
  "frame_of r = (case r of (None, st) \<Rightarrow> Inr (df st) | (Some e, st) \<Rightarrow> Inl e)"

text \<open>
  A table of two lists in which the prefix of \<open>info\<close> is a strict prefix of the prefix
  of \<open>elapsed\<close>, declared after it.
\<close>

definition info_table :: "(string \<times> line_type) list" where
  "info_table =
     [(''info'', \<lparr>lt_prefix = ''!!Info1'', lt_index = False, lt_before_index = False,
                  lt_nan = VStr [], lt_names = None,
                  process_line_wrapper = string_process_line,
                  lt_value = AllAppend [], lt_no_values = 0\<rparr>),
      (''elapsed'', \<lparr>lt_prefix = ''!!Info1 Elapsed'', lt_index = True, lt_before_index = False,
                     lt_nan = VNaT, lt_names = None,
                     process_line_wrapper = timedelta_hms_process_line,
                     lt_value = AllAppend [], lt_no_values = 0\<rparr>)]"

text \<open>The values of a key in an outcome, when nothing was raised.\<close>

definition values_after :: "outcome \<Rightarrow> string \<Rightarrow> exn + accumulator option" where
  "values_after r key = (case r of (None, st) \<Rightarrow> Inr (values_of st key) | (Some e, st) \<Rightarrow> Inl e)"

section \<open>Theorems\<close>

lemma py_isspace_space [simp]: "py_isspace CHR '' ''"
  by (simp add: py_isspace_def)

text \<open>
  C7. The claim: the string handed to the value parser is the whole remainder of the line
  after the leading prefix, stripped on the left, also when the prefix occurs again later
  in the line. The source comment says ``store everything after prefix'', but
  \<open>split(prefix)[1]\<close> stops at the next occurrence of the prefix: for the prefix \<open>T:\<close>
  the line \<open>T: a T: b\<close> hands over \<open>a \<close> (with its trailing blank), not \<open>a T: b\<close>.
\<close>

theorem end_of_line_prefix_reoccurs:
  "startswith ''T: a T: b'' ''T:'' \<and>
   end_of_line ''T: a T: b'' ''T:'' = Inr ''a '' \<and>
   lstrip (drop (length ''T:'') ''T: a T: b'') = ''a T: b''"
  by (simp add: end_of_line_def py_split_def py_index_def lstrip_def py_isspace_def)

subsection \<open>The exclusion set of a parser\<close>

lemma startswith_self [simp]: "startswith s s"
  by (induction s) simp_all

lemma contains_self [simp]: "contains s s"
  by (cases s) simp_all

lemmas parser_example_defs =
  then_process_line_def recorded_def sentinel_def Parser_init_def data_factory_def
  process_line_def update_def py_in_def py_split_def

text \<open>
  C10 as the code has it. For a parser made without an exclusion set (\<open>exclude\<close> left
  at \<open>None\<close>): a residual that converts is recorded; when the conversion raises
  \<open>ValueError\<close>, the handler evaluates \<open>raw_line in None\<close> and \<open>process_line\<close> raises
  \<open>TypeError\<close> instead of the \<open>ValueError\<close>; an exception of the conversion that is
  no \<open>ValueError\<close> is not caught and is raised as it is.
\<close>

theorem process_line_exclude_none:
  "exclude p = ExcludeNone \<Longrightarrow>
   process_line p raw_line =
     (case convert p raw_line of
        Inr v \<Rightarrow> Inr (p\<lparr>data := update (data p) v\<rparr>)
      | Inl e \<Rightarrow> if e = ValueError then Inl TypeError else Inl e)"
  by (simp add: process_line_def py_in_def split: sum.splits)

theorem process_line_exclude_none_witness:
  "then_process_line
     (TimeDeltaHMSParser ''ETR'' ''!!Info1 ETR:'' ''last'' ExcludeNone False False)
     ''calculating...'' = Inl TypeError"
proof -
  let ?p = "\<lparr>name = ''ETR'', prefix = ''!!Info1 ETR:'', is_index = False, before_index = False,
             exclude = ExcludeNone, parser_no_values = 0, data_type = ''last'',
             data = \<lparr>header = ''ETR'', no_values = 0, subheaders = None,
                      data_value = LastData VNone\<rparr>,
             nan = VNaT, convert = timedelta_hms_process_line\<rparr>"
  have made: "TimeDeltaHMSParser ''ETR'' ''!!Info1 ETR:'' ''last'' ExcludeNone False False = Inr ?p"
    by (simp add: TimeDeltaHMSParser_def Parser_init_def data_factory_def)
  have fails: "convert ?p ''calculating...'' = Inl ValueError"
    by (simp add: timedelta_hms_process_line_def py_split_def)
  have "process_line ?p ''calculating...'' = Inl TypeError"
    using process_line_exclude_none [of ?p "''calculating...''"] fails by simp
  then show ?thesis
    by (simp only: made then_process_line_def sum.case)
qed

text \<open>
  C10 as the claim states it fails. A \<open>TimeFloatMultParser\<close> without an exclusion set,
  on a residual with no piece (the line is its prefix and nothing more), raises the
  \<open>IndexError\<close> of \<open>processed[0]\<close>, whatever \<open>float\<close> and \<open>dt.timedelta\<close> do; and a
  \<open>TimeDeltaHMSParser\<close> without an exclusion set, on a number of hours beyond the days of
  a \<open>timedelta\<close>, raises the \<open>OverflowError\<close> of \<open>dt.timedelta\<close>. Neither is a
  \<open>TypeError\<close>: the conversion error is propagated.
\<close>

theorem process_line_exclude_none_counterexample:
  "(\<forall>flt td_hours.
      then_process_line
        (TimeFloatMultParser flt td_hours [''inflow'', ''outflow''] ''plot'' ''!!PlotG1'' ''all''
           ExcludeNone False False)
        [] = Inl IndexError) \<and>
   then_process_line
     (TimeDeltaHMSParser ''ETR'' ''!!Info1 ETR:'' ''last'' ExcludeNone False False)
     ''24000000000:00:00'' = Inl OverflowError"
  by (simp add: parser_example_defs TimeFloatMultParser_def time_float_mult_process_line_def
        split_ws_def TimeDeltaHMSParser_def timedelta_hms_process_line_def py_index_def
        py_int_def int_strip_def int_isspace_def max_str_digits_def digit_val_def
        timedelta_hms_def)

text \<open>
  C5 as the code has it. For a residual that is one of the excluded strings,
  \<open>process_line\<close> records the converted value when the conversion succeeds, records the
  sentinel \<open>_nan\<close> when the conversion raises \<open>ValueError\<close>, and never raises
  \<open>ValueError\<close>: the exclusion set is consulted in the handler of a failed conversion only.
\<close>

theorem process_line_excluded_residual:
  "exclude p = ExcludeStr raw_line \<or> (exclude p = ExcludeList xs \<and> raw_line \<in> set xs) \<Longrightarrow>
   process_line p raw_line =
     (case convert p raw_line of
        Inr v \<Rightarrow> Inr (p\<lparr>data := update (data p) v\<rparr>)
      | Inl e \<Rightarrow> if e = ValueError then Inr (p\<lparr>data := update (data p) (nan p)\<rparr>) else Inl e) \<and>
   process_line p raw_line \<noteq> Inl ValueError"
  by (auto simp: process_line_def py_in_def split: sum.splits)

text \<open>
  The remaining-time line of a run that has just started, read by a
  \<open>TimeDeltaHMSParser\<close> that excludes \<open>calculating...\<close>: the sentinel \<open>NaT\<close> is recorded.
\<close>

theorem process_line_excluded_residual_witness:
  "recorded (then_process_line
     (TimeDeltaHMSParser ''ETR'' ''!!Info1 ETR:'' ''all''
        (ExcludeList [''calculating...'']) False False)
     ''calculating...'') = Inr (AllData [VNaT])"
proof -
  let ?p = "\<lparr>name = ''ETR'', prefix = ''!!Info1 ETR:'', is_index = False, before_index = False,
             exclude = ExcludeList [''calculating...''], parser_no_values = 0,
             data_type = ''all'',
             data = \<lparr>header = ''ETR'', no_values = 0, subheaders = None,
                      data_value = AllData []\<rparr>,
             nan = VNaT, convert = timedelta_hms_process_line\<rparr>"
  have made: "TimeDeltaHMSParser ''ETR'' ''!!Info1 ETR:'' ''all''
                (ExcludeList [''calculating...'']) False False = Inr ?p"
    by (simp add: TimeDeltaHMSParser_def Parser_init_def data_factory_def)
  have fails: "convert ?p ''calculating...'' = Inl ValueError"
    by (simp add: timedelta_hms_process_line_def py_split_def)
  have "process_line ?p ''calculating...'' = Inr (?p\<lparr>data := update (data ?p) (nan ?p)\<rparr>)"
    using process_line_excluded_residual [of ?p "''calculating...''" "[''calculating...'']"] fails
    by simp
  then show ?thesis
    by (simp add: made then_process_line_def recorded_def update_def)
qed

text \<open>
  C5 as the claim states it fails: a \<open>StringParser\<close> whose exclusion set holds
  \<open>unknown\<close> records the residual \<open>unknown\<close> itself, not its sentinel, the empty string.
\<close>

theorem process_line_excluded_counterexample:
  "sentinel (StringParser ''version'' ''!!Info1 version'' ''last''
               (ExcludeList [''unknown'']) False False) = Inr (VStr []) \<and>
   recorded (then_process_line
     (StringParser ''version'' ''!!Info1 version'' ''last'' (ExcludeList [''unknown'']) False False)
     ''unknown'') = Inr (LastData (VStr ''unknown''))"
  by (simp add: parser_example_defs StringParser_def string_process_line_def)

lemma and_then_None [simp]: "and_then (None, st) f = f st"
  by (simp add: and_then_def)

lemma and_then_Some [simp]: "and_then (Some e, st) f = (Some e, st)"
  by (simp add: and_then_def)

lemma and_then_cases:
  assumes "and_then r f = (q, st')"
  obtains (raised) e where "r = (Some e, st')" "q = Some e"
        | (went_on) st1 where "r = (None, st1)" "f st1 = (q, st')"
  using assms by (cases r) (auto simp: and_then_def split: option.splits)

lemma for_each_rel:
  assumes step: "\<And>x s r s'. body x s = (r, s') \<Longrightarrow> R s s'"
    and refl: "\<And>s. R s s"
    and trans: "\<And>a b c. R a b \<Longrightarrow> R b c \<Longrightarrow> R a c"
  shows "for_each body xs st = (r, st') \<Longrightarrow> R st st'"
proof (induction xs arbitrary: st)
  case Nil
  then show ?case by (simp add: refl)
next
  case (Cons x xs)
  obtain r1 s1 where b: "body x st = (r1, s1)" by (cases "body x st")
  show ?case
  proof (cases r1)
    case None
    with Cons.prems b have "for_each body xs s1 = (r, st')" by simp
    then have "R s1 st'" by (rule Cons.IH)
    with step [OF b] show ?thesis by (rule trans)
  next
    case (Some e)
    with Cons.prems b have "st' = s1" by simp
    with step [OF b] show ?thesis by simp
  qed
qed

lemma for_each_append:
  "for_each body (xs @ ys) st = and_then (for_each body xs st) (for_each body ys)"
  by (induction xs arbitrary: st) (auto simp: and_then_def split: prod.splits option.splits)

lemma advances_refl [simp]: "advances a a"
  by (simp add: advances_def)

lemma advances_trans: "advances a b \<Longrightarrow> advances b c \<Longrightarrow> advances a c"
  by (auto simp: advances_def)

lemma evolves_refl [simp]: "evolves s s"
  by (simp add: evolves_def option.rel_refl)

lemma evolves_trans: "evolves a b \<Longrightarrow> evolves b c \<Longrightarrow> evolves a c"
  unfolding evolves_def
proof (intro conjI allI, goal_cases)
  case (5 key)
  then have "rel_option advances (extracted_data a key) (extracted_data b key)"
    and "rel_option advances (extracted_data b key) (extracted_data c key)"
    by blast+
  then show ?case
    by (cases "extracted_data a key"; cases "extracted_data b key"; cases "extracted_data c key")
       (auto intro: advances_trans)
qed auto

lemma advances_update [simp]: "advances a (update_value_wrapper a v)"
  by (auto simp: advances_def update_value_wrapper_def is_many_def split: accumulator.splits)

lemma advances_update2: "advances a b \<Longrightarrow> advances a (update_value_wrapper b v)"
  by (rule advances_trans [OF _ advances_update])

lemma advances_sync [simp]: "advances a (sync_line_type n a)"
  by (simp add: sync_line_type_def)

lemma advances_final_sync [simp]: "advances a (final_sync_line_type m a)"
  by (simp add: final_sync_line_type_def advances_update2 split: accumulator.splits)

lemma evolves_entry:
  "extracted_data s key = Some a \<Longrightarrow> advances a b \<Longrightarrow>
   evolves s (s\<lparr>extracted_data := (extracted_data s)(key \<mapsto> b)\<rparr>)"
  by (simp add: evolves_def option.rel_refl)

lemma evolves_no_iters: "evolves s (s\<lparr>no_iters := no_iters s + 1\<rparr>)"
  by (simp add: evolves_def option.rel_refl)

lemma evolves_no_lines: "evolves s (s\<lparr>no_lines := no_lines s + 1\<rparr>)"
  by (simp add: evolves_def option.rel_refl)

lemma evolves_keys: "evolves s s' \<Longrightarrow> keys s' = keys s"
  by (simp add: evolves_def keys_def)

lemma sync_key_evolves: "sync_key key s = (r, s') \<Longrightarrow> evolves s s'"
  by (auto simp: sync_key_def evolves_entry split: option.splits)

lemma sync_cols_evolves: "sync_cols s = (r, s') \<Longrightarrow> evolves s s'"
  unfolding sync_cols_def
  by (erule for_each_rel [rotated -1]) (auto intro: sync_key_evolves evolves_trans)

lemma final_sync_key_evolves: "final_sync_key m key s = (r, s') \<Longrightarrow> evolves s s'"
  by (auto simp: final_sync_key_def evolves_entry split: option.splits)

lemma final_sync_cols_evolves: "final_sync_cols s = (r, s') \<Longrightarrow> evolves s s'"
  unfolding final_sync_cols_def
  by (auto split: sum.splits elim!: for_each_rel [rotated -1]
           intro: final_sync_key_evolves evolves_trans)

lemma store_line_evolves:
  assumes "store_line raw_line key s = (r, s')"
  shows "evolves s s'"
proof (cases "extracted_data s key")
  case None
  with assms show ?thesis by (simp add: store_line_def)
next
  case (Some lt)
  show ?thesis
  proof (cases "end_of_line raw_line (lt_prefix lt)")
    case (Inl e)
    with assms Some show ?thesis by (simp add: store_line_def)
  next
    case (Inr eol)
    show ?thesis
    proof (cases "process_line_wrapper lt eol")
      case (Inl e)
      with assms Some Inr show ?thesis by (simp add: store_line_def)
    next
      case (Inr v)
      let ?s1 = "s\<lparr>extracted_data := (extracted_data s)(key \<mapsto> update_value_wrapper lt v)\<rparr>"
      have e1: "evolves s ?s1"
        using Some by (simp add: evolves_entry)
      show ?thesis
      proof (cases "lt_index lt")
        case False
        with assms Some \<open>end_of_line raw_line (lt_prefix lt) = Inr eol\<close> Inr e1
        show ?thesis by (simp add: store_line_def)
      next
        case True
        with assms Some \<open>end_of_line raw_line (lt_prefix lt) = Inr eol\<close> Inr
        have "and_then (sync_cols ?s1) (\<lambda>st2. (None, st2\<lparr>no_iters := no_iters st2 + 1\<rparr>)) = (r, s')"
          by (simp add: store_line_def)
        then have "evolves ?s1 s'"
        proof (cases rule: and_then_cases)
          case (raised e)
          then show ?thesis by (auto dest: sync_cols_evolves)
        next
          case (went_on st1)
          then have "evolves ?s1 st1" and "s' = st1\<lparr>no_iters := no_iters st1 + 1\<rparr>"
            by (auto dest: sync_cols_evolves)
          then show ?thesis
            using evolves_no_iters [of st1] by (auto intro: evolves_trans)
        qed
        with e1 show ?thesis by (rule evolves_trans)
      qed
    qed
  qed
qed

lemma process_key_evolves: "process_key raw_line key s = (r, s') \<Longrightarrow> evolves s s'"
  by (auto simp: process_key_def split: option.splits if_splits dest: store_line_evolves)

lemma process_keys_evolves:
  "for_each (process_key raw_line) ks s = (r, s') \<Longrightarrow> evolves s s'"
  by (erule for_each_rel [rotated -1]) (auto intro: process_key_evolves evolves_trans)

lemma process_raw_line_evolves:
  assumes "process_raw_line raw_line s = (r, s')"
  shows "evolves s s'"
  using assms unfolding process_raw_line_def
proof (cases rule: and_then_cases)
  case (raised e)
  then show ?thesis by (auto dest: process_keys_evolves)
next
  case (went_on st1)
  then have "evolves s st1" and "s' = st1\<lparr>no_lines := no_lines st1 + 1\<rparr>"
    by (auto dest: process_keys_evolves)
  then show ?thesis
    using evolves_no_lines [of st1] by (auto intro: evolves_trans)
qed

lemma update_line_types_evolves: "update_line_types raw_data s = (r, s') \<Longrightarrow> evolves s s'"
  unfolding update_line_types_def
  by (erule for_each_rel [rotated -1]) (auto intro: process_raw_line_evolves evolves_trans)


subsection \<open>The counters of a read\<close>

lemma set_attribute_evolves: "set_attribute key s = (r, s') \<Longrightarrow> evolves s s'"
  by (auto simp: set_attribute_def evolves_def option.rel_refl split: option.splits)

lemma set_attributes_evolves: "set_attributes s = (r, s') \<Longrightarrow> evolves s s'"
  unfolding set_attributes_def
  by (erule for_each_rel [rotated -1]) (auto intro: set_attribute_evolves evolves_trans)

lemma create_dataframe_evolves: "create_dataframe s = (r, s') \<Longrightarrow> evolves s s'"
  by (auto simp: create_dataframe_def evolves_def option.rel_refl split: sum.splits)

lemma final_steps_evolves:
  assumes "and_then (and_then (final_sync_cols s) set_attributes) create_dataframe = (r, s')"
  shows "evolves s s'"
  using assms
proof (cases rule: and_then_cases)
  case (raised e)
  then show ?thesis
    by (elim and_then_cases)
       (auto dest!: final_sync_cols_evolves set_attributes_evolves intro: evolves_trans)
next
  case (went_on st1)
  from went_on(1) have "evolves s st1"
    by (elim and_then_cases)
       (auto dest!: final_sync_cols_evolves set_attributes_evolves intro: evolves_trans)
  with went_on(2) show ?thesis
    by (auto dest!: create_dataframe_evolves intro: evolves_trans)
qed

lemma read_evolves:
  assumes "read False suppress_final_steps raw_data s = (r, s')"
  shows "evolves s s'"
proof -
  from assms have
    "and_then (update_line_types raw_data s)
       (\<lambda>st2. if \<not> suppress_final_steps
              then and_then (and_then (final_sync_cols st2) set_attributes) create_dataframe
              else (None, st2)) = (r, s')"
    by (simp add: read_def)
  then show ?thesis
  proof (cases rule: and_then_cases)
    case (raised e)
    then show ?thesis by (auto dest: update_line_types_evolves)
  next
    case (went_on st1)
    then have "evolves s st1" by (auto dest: update_line_types_evolves)
    moreover have "evolves st1 s'"
      using went_on(2) by (cases suppress_final_steps) (auto dest: final_steps_evolves)
    ultimately show ?thesis by (rule evolves_trans)
  qed
qed

subsection \<open>The number of lines read\<close>

lemma sync_cols_no_lines: "sync_cols s = (r, s') \<Longrightarrow> no_lines s' = no_lines s"
  unfolding sync_cols_def
  by (erule for_each_rel [rotated -1]) (auto simp: sync_key_def split: option.splits)

lemma store_line_no_lines: "store_line raw_line key s = (r, s') \<Longrightarrow> no_lines s' = no_lines s"
  by (auto simp: store_line_def split: option.splits sum.splits if_splits
           elim!: and_then_cases dest!: sync_cols_no_lines)

lemma process_keys_no_lines:
  "for_each (process_key raw_line) ks s = (r, s') \<Longrightarrow> no_lines s' = no_lines s"
  by (erule for_each_rel [rotated -1])
     (auto simp: process_key_def split: option.splits if_splits dest: store_line_no_lines)

lemma process_raw_line_no_lines:
  "process_raw_line raw_line s = (None, s') \<Longrightarrow> no_lines s' = no_lines s + 1"
  unfolding process_raw_line_def
  by (erule and_then_cases) (auto dest: process_keys_no_lines)

lemma process_raw_lines_no_lines:
  "for_each process_raw_line ls s = (None, s') \<Longrightarrow> no_lines s' = no_lines s + length ls"
proof (induction ls arbitrary: s)
  case Nil
  then show ?case by simp
next
  case (Cons l ls)
  then show ?case
    by (auto split: prod.splits option.splits dest!: process_raw_line_no_lines)
qed

lemma update_line_types_no_lines:
  "update_line_types raw_data s = (None, s') \<Longrightarrow>
   no_lines s' = no_lines s + length (drop (no_lines s) raw_data)"
  unfolding update_line_types_def by (rule process_raw_lines_no_lines)

lemma final_sync_cols_no_lines: "final_sync_cols s = (r, s') \<Longrightarrow> no_lines s' = no_lines s"
  unfolding final_sync_cols_def
  by (auto split: sum.splits elim!: for_each_rel [rotated -1]
           simp: final_sync_key_def split: option.splits)

lemma set_attributes_no_lines: "set_attributes s = (r, s') \<Longrightarrow> no_lines s' = no_lines s"
  unfolding set_attributes_def
  by (erule for_each_rel [rotated -1]) (auto simp: set_attribute_def split: option.splits)

lemma create_dataframe_no_lines: "create_dataframe s = (r, s') \<Longrightarrow> no_lines s' = no_lines s"
  by (auto simp: create_dataframe_def split: sum.splits)

lemma final_steps_no_lines:
  "and_then (and_then (final_sync_cols s) set_attributes) create_dataframe = (r, s') \<Longrightarrow>
   no_lines s' = no_lines s"
  by (elim and_then_cases)
     (auto dest!: final_sync_cols_no_lines set_attributes_no_lines create_dataframe_no_lines)

lemma del_attributes_counters:
  "del_attributes s = (r, s') \<Longrightarrow> no_lines s' = no_lines s \<and> no_iters s' = no_iters s"
  unfolding del_attributes_def
  by (erule for_each_rel [rotated -1]) (auto simp: del_attribute_def split: if_splits)

lemma read_no_lines:
  assumes "read force_reread suppress_final_steps raw_data s = (None, s')"
  shows "no_lines s' = (if force_reread then 0 else no_lines s)
           + length (drop (if force_reread then 0 else no_lines s) raw_data)"
proof -
  from assms obtain s1 where
    first: "(if force_reread = True
             then and_then (and_then (del_attributes s) del_dataframe)
                    (\<lambda>st'. (None, init_line_types (init_counters st')))
             else (None, s)) = (None, s1)"
    and rest: "and_then (update_line_types raw_data s1)
       (\<lambda>st2. if \<not> suppress_final_steps
              then and_then (and_then (final_sync_cols st2) set_attributes) create_dataframe
              else (None, st2)) = (None, s')"
    unfolding read_def by (elim and_then_cases) auto
  have s1: "no_lines s1 = (if force_reread then 0 else no_lines s)"
    using first
    by (auto split: if_splits elim!: and_then_cases simp: init_line_types_def init_counters_def)
  from rest obtain s2 where upd: "update_line_types raw_data s1 = (None, s2)"
    and fin: "(if \<not> suppress_final_steps
              then and_then (and_then (final_sync_cols s2) set_attributes) create_dataframe
              else (None, s2)) = (None, s')"
    by (elim and_then_cases) auto
  have "no_lines s' = no_lines s2"
    using fin by (auto split: if_splits dest: final_steps_no_lines)
  with update_line_types_no_lines [OF upd] s1 show ?thesis by simp
qed

lemmas example_defs =
  with_table_def example_table_def iter_line_type_def elapsed_line_type_def
  progress_line_type_def init_line_types_def init_counters_def blank_def

lemmas read_defs =
  read_def update_line_types_def process_raw_line_def process_key_def store_line_def
  sync_cols_def sync_key_def sync_line_type_def final_sync_cols_def final_sync_key_def
  final_sync_line_type_def set_attributes_def set_attribute_def create_dataframe_def
  pd_DataFrame_def same_lengths_def keys_def update_value_wrapper_def is_many_def
  end_of_line_def py_split_def py_index_def lstrip_def string_process_line_def
  timedelta_hms_process_line_def py_int_def int_strip_def int_isspace_def max_str_digits_def
  digit_val_def timedelta_hms_def py_isspace_def

subsection \<open>Reading in two batches\<close>

lemma read_suppressed: "read False True raw_data st = update_line_types raw_data st"
  by (cases "update_line_types raw_data st") (auto simp: read_def and_then_def split: option.splits)

text \<open>
  C1 as the code has it. When the lines of \<open>A\<close> are read with the final steps
  suppressed and the read returns, reading \<open>A + B\<close> afterwards leaves the object, and
  so its data frame, as reading \<open>A + B\<close> at once from the same state leaves it.
\<close>

theorem read_resumes:
  assumes first: "read False True A st = (None, st1)"
    and behind: "no_lines st \<le> length A"
  shows "read False suppress_final_steps (A @ B) st1 = read False suppress_final_steps (A @ B) st"
proof -
  from first have upd: "for_each process_raw_line (drop (no_lines st) A) st = (None, st1)"
    by (simp add: read_suppressed update_line_types_def)
  then have "no_lines st1 = no_lines st + length (drop (no_lines st) A)"
    by (rule process_raw_lines_no_lines)
  with behind have at_end: "no_lines st1 = length A"
    by simp
  have "update_line_types (A @ B) st
          = and_then (for_each process_raw_line (drop (no_lines st) A) st)
              (for_each process_raw_line B)"
    using behind by (simp add: update_line_types_def for_each_append)
  also have "\<dots> = for_each process_raw_line B st1"
    by (simp add: upd)
  also have "\<dots> = update_line_types (A @ B) st1"
    by (simp add: update_line_types_def at_end)
  finally show ?thesis
    by (simp add: read_def)
qed

theorem read_resumes_witness:
  "frame_of (and_then (read False True [''ITER: 1''] (with_table example_table))
               (read False False ([''ITER: 1''] @ [''ELAPSED: 0:00:01''])))
     = frame_of (read False False ([''ITER: 1''] @ [''ELAPSED: 0:00:01''])
                   (with_table example_table)) \<and>
   frame_of (read False False ([''ITER: 1''] @ [''ELAPSED: 0:00:01''])
               (with_table example_table))
     = Inr (Some [(''iter'', [VStr ''1'']), (''elapsed'', [VTimeDelta 1000000])])"
proof -
  let ?first = "read False True [''ITER: 1''] (with_table example_table)"
  have returned: "fst ?first = None"
    by (simp add: example_defs read_defs)
  then have first: "?first = (None, snd ?first)"
    by (simp add: prod_eq_iff)
  have behind: "no_lines (with_table example_table) \<le> length [''ITER: 1'']"
    by (simp add: example_defs)
  have "and_then ?first (read False False ([''ITER: 1''] @ [''ELAPSED: 0:00:01'']))
          = read False False ([''ITER: 1''] @ [''ELAPSED: 0:00:01'']) (snd ?first)"
    by (subst first) simp
  also have "\<dots> = read False False ([''ITER: 1''] @ [''ELAPSED: 0:00:01''])
                     (with_table example_table)"
    using first behind by (rule read_resumes)
  finally have same: "and_then ?first (read False False ([''ITER: 1''] @ [''ELAPSED: 0:00:01'']))
          = read False False ([''ITER: 1''] @ [''ELAPSED: 0:00:01'']) (with_table example_table)" .
  have "frame_of (read False False ([''ITER: 1''] @ [''ELAPSED: 0:00:01''])
               (with_table example_table))
     = Inr (Some [(''iter'', [VStr ''1'']), (''elapsed'', [VTimeDelta 1000000])])"
    by (simp add: example_defs read_defs frame_of_def)
  with same show ?thesis by simp
qed

text \<open>
  C1 as the claim states it fails. An object made while the file holds \<open>ITER: 1\<close> runs
  the final sync, which pads \<open>elapsed\<close>; reading the file again when it also holds
  \<open>ELAPSED: 0:00:01\<close> gives two rows, and an object made from the two lines at once
  has one row.
\<close>

theorem read_twice_counterexample:
  "frame_of (and_then (LF_init example_params (LF1 False) [''ITER: 1''])
               (read False False ([''ITER: 1''] @ [''ELAPSED: 0:00:01''])))
     = Inr (Some [(''iter'', [VStr ''1'', VStr []]), (''elapsed'', [VNaT, VTimeDelta 1000000])]) \<and>
   frame_of (LF_init example_params (LF1 False) ([''ITER: 1''] @ [''ELAPSED: 0:00:01'']))
     = Inr (Some [(''iter'', [VStr ''1'']), (''elapsed'', [VTimeDelta 1000000])])"
  by (simp add: LF_init_def before_read_def init_params_and_progress_def example_params_def
        example_defs read_defs frame_of_def)

subsection \<open>The line types that store a raw line\<close>

lemma evolves_matching: "evolves s s' \<Longrightarrow> matching s' raw_line = matching s raw_line"
proof (rule ext)
  fix key
  assume "evolves s s'"
  then have "rel_option advances (extracted_data s key) (extracted_data s' key)"
    by (simp add: evolves_def)
  then show "matching s' raw_line key = matching s raw_line key"
    by (cases "extracted_data s key"; cases "extracted_data s' key")
       (auto simp: matching_def advances_def)
qed

lemma evolves_present:
  "evolves s s' \<Longrightarrow> list_all (\<lambda>key. extracted_data s key \<noteq> None) ks \<Longrightarrow>
   list_all (\<lambda>key. extracted_data s' key \<noteq> None) ks"
proof -
  assume e: "evolves s s'" and p: "list_all (\<lambda>key. extracted_data s key \<noteq> None) ks"
  have "extracted_data s' key \<noteq> None" if "extracted_data s key \<noteq> None" for key
  proof -
    from e have "rel_option advances (extracted_data s key) (extracted_data s' key)"
      by (simp add: evolves_def)
    with that show ?thesis
      by (cases "extracted_data s key"; cases "extracted_data s' key") auto
  qed
  with p show ?thesis by (auto simp: list_all_iff)
qed

lemma process_keys_store:
  "list_all (\<lambda>key. extracted_data st key \<noteq> None) ks \<Longrightarrow>
   for_each (process_key raw_line) ks st
     = for_each (store_line raw_line) (filter (matching st raw_line) ks) st"
proof (induction ks arbitrary: st)
  case Nil
  show ?case by simp
next
  case (Cons key ks)
  then obtain lt where lt: "extracted_data st key = Some lt"
    by auto
  from Cons.prems have rest: "list_all (\<lambda>key. extracted_data st key \<noteq> None) ks"
    by simp
  show ?case
  proof (cases "startswith raw_line (lt_prefix lt)")
    case False
    with lt have "process_key raw_line key st = (None, st)" and "\<not> matching st raw_line key"
      by (simp_all add: process_key_def matching_def)
    with Cons.IH [OF rest] show ?thesis
      by simp
  next
    case True
    with lt have pk: "process_key raw_line key st = store_line raw_line key st"
      and m: "matching st raw_line key"
      by (simp_all add: process_key_def matching_def)
    obtain r s1 where st: "store_line raw_line key st = (r, s1)"
      by (cases "store_line raw_line key st")
    then have e: "evolves st s1"
      by (rule store_line_evolves)
    show ?thesis
    proof (cases r)
      case (Some e)
      with pk m st show ?thesis
        by simp
    next
      case None
      from e rest have "list_all (\<lambda>key. extracted_data s1 key \<noteq> None) ks"
        by (rule evolves_present)
      then have "for_each (process_key raw_line) ks s1
                   = for_each (store_line raw_line) (filter (matching s1 raw_line) ks) s1"
        by (rule Cons.IH)
      then have "for_each (process_key raw_line) ks s1
                   = for_each (store_line raw_line) (filter (matching st raw_line) ks) s1"
        by (simp only: evolves_matching [OF e])
      with pk m st None show ?thesis
        by simp
    qed
  qed
qed

text \<open>
  C2 as the code has it. The loop over the line types has no \<open>break\<close>: a raw line is
  stored by every line type whose prefix it starts with, each once, in the order of the
  table, and the line types whose prefix it does not start with are passed over.
\<close>

theorem every_matching_line_type_stores:
  "list_all (\<lambda>key. extracted_data st key \<noteq> None) (keys st) \<Longrightarrow>
   process_raw_line raw_line st
     = and_then (for_each (store_line raw_line) (filter (matching st raw_line) (keys st)) st)
         (\<lambda>st'. (None, st'\<lparr>no_lines := no_lines st' + 1\<rparr>))"
  by (simp add: process_raw_line_def process_keys_store)

lemmas info_defs = with_table_def info_table_def init_line_types_def init_counters_def blank_def

theorem every_matching_line_type_stores_witness:
  "filter (matching (with_table info_table) ''!!Info1 Elapsed 0:00:01'')
     (keys (with_table info_table)) = [''info'', ''elapsed''] \<and>
   values_after
     (and_then (for_each (store_line ''!!Info1 Elapsed 0:00:01'')
                  (filter (matching (with_table info_table) ''!!Info1 Elapsed 0:00:01'')
                     (keys (with_table info_table)))
                  (with_table info_table))
        (\<lambda>st'. (None, st'\<lparr>no_lines := no_lines st' + 1\<rparr>))) ''elapsed''
     = Inr (Some (AllAppend [VTimeDelta 1000000]))"
proof -
  have present: "list_all (\<lambda>key. extracted_data (with_table info_table) key \<noteq> None)
                   (keys (with_table info_table))"
    by (simp add: info_defs keys_def)
  have "values_after (process_raw_line ''!!Info1 Elapsed 0:00:01'' (with_table info_table))
          ''elapsed'' = Inr (Some (AllAppend [VTimeDelta 1000000]))"
    by (simp add: info_defs read_defs values_after_def values_of_def)
  moreover have "filter (matching (with_table info_table) ''!!Info1 Elapsed 0:00:01'')
     (keys (with_table info_table)) = [''info'', ''elapsed'']"
    by (simp add: info_defs keys_def matching_def)
  ultimately show ?thesis
    using every_matching_line_type_stores [OF present, of "''!!Info1 Elapsed 0:00:01''"]
    by simp
qed

text \<open>
  C2 as the claim states it fails: the line \<open>!!Info1 Elapsed 0:00:01\<close> starts with the
  prefix of \<open>info\<close> and with the prefix of \<open>elapsed\<close>, and both record it.
\<close>

theorem first_match_counterexample:
  "values_after (process_raw_line ''!!Info1 Elapsed 0:00:01'' (with_table info_table)) ''info''
     = Inr (Some (AllAppend [VStr ''Elapsed 0:00:01''])) \<and>
   values_after (process_raw_line ''!!Info1 Elapsed 0:00:01'' (with_table info_table)) ''elapsed''
     = Inr (Some (AllAppend [VTimeDelta 1000000]))"
  by (simp add: info_defs read_defs values_after_def values_of_def)

subsection \<open>The final sync\<close>

lemma for_each_entries:
  assumes body: "\<And>key s. body key s =
        (case extracted_data s key of
           None \<Rightarrow> (Some KeyError, s)
         | Some lt \<Rightarrow> (None, s\<lparr>extracted_data := (extracted_data s)(key \<mapsto> g s lt)\<rparr>))"
    and frame: "\<And>s ed. g (s\<lparr>extracted_data := ed\<rparr>) = g s"
  shows "distinct ks \<Longrightarrow> list_all (\<lambda>key. extracted_data st key \<noteq> None) ks \<Longrightarrow>
         for_each body ks st =
           (None, st\<lparr>extracted_data :=
                     (\<lambda>k. if k \<in> set ks then map_option (g st) (extracted_data st k)
                          else extracted_data st k)\<rparr>)"
proof (induction ks arbitrary: st)
  case Nil
  show ?case by simp
next
  case (Cons key ks)
  then obtain lt where lt: "extracted_data st key = Some lt"
    by auto
  let ?s1 = "st\<lparr>extracted_data := (extracted_data st)(key \<mapsto> g st lt)\<rparr>"
  have step: "body key st = (None, ?s1)"
    by (simp add: body lt)
  have "distinct ks" and "list_all (\<lambda>k. extracted_data ?s1 k \<noteq> None) ks"
    using Cons.prems by (auto simp: list_all_iff)
  then have "for_each body ks ?s1 =
           (None, ?s1\<lparr>extracted_data :=
                     (\<lambda>k. if k \<in> set ks then map_option (g ?s1) (extracted_data ?s1 k)
                          else extracted_data ?s1 k)\<rparr>)"
    by (rule Cons.IH)
  moreover have "(\<lambda>k. if k \<in> set ks then map_option (g ?s1) (extracted_data ?s1 k)
                          else extracted_data ?s1 k)
      = (\<lambda>k. if k \<in> set (key # ks) then map_option (g st) (extracted_data st k)
                          else extracted_data st k)"
    using Cons.prems lt by (auto simp: fun_eq_iff frame)
  ultimately show ?case
    by (simp add: step)
qed

lemma max_length_from_present:
  "list_all (\<lambda>key. ed key \<noteq> None) ks \<Longrightarrow> \<exists>m'. max_length_from m ks ed = Inr m' \<and> m \<le> m'"
proof (induction ks arbitrary: m)
  case Nil
  show ?case by simp
next
  case (Cons key ks)
  then obtain lt where lt: "ed key = Some lt" by auto
  from Cons.prems have rest: "list_all (\<lambda>key. ed key \<noteq> None) ks" by simp
  show ?case
  proof (cases "lt_value lt")
    case (Latest v)
    with lt Cons.IH [OF rest, of m] show ?thesis by simp
  next
    case (AllAppend xs)
    with lt Cons.IH [OF rest, of "max m (int (length xs))"] show ?thesis by auto
  qed
qed

lemma max_length_from_mono: "max_length_from m ks ed = Inr m' \<Longrightarrow> m \<le> m'"
proof (induction ks arbitrary: m)
  case Nil
  then show ?case by simp
next
  case (Cons k ks)
  from Cons.prems show ?case
    by (auto split: option.splits accumulator.splits dest!: Cons.IH)
qed

lemma max_length_from_bound:
  "max_length_from m ks ed = Inr m' \<Longrightarrow> key \<in> set ks \<Longrightarrow> ed key = Some lt \<Longrightarrow>
   lt_value lt = AllAppend xs \<Longrightarrow> int (length xs) \<le> m'"
proof (induction ks arbitrary: m)
  case Nil
  then show ?case by simp
next
  case (Cons k ks)
  show ?case
  proof (cases "k = key")
    case True
    with Cons.prems have "max_length_from (max m (int (length xs))) ks ed = Inr m'"
      by simp
    then have "max m (int (length xs)) \<le> m'"
      by (rule max_length_from_mono)
    then show ?thesis by simp
  next
    case False
    with Cons.prems Cons.IH show ?thesis
      by (auto split: option.splits accumulator.splits)
  qed
qed

lemma final_sync_line_type_value:
  "lt_value lt = AllAppend xs \<Longrightarrow>
   lt_value (final_sync_line_type m lt)
     = AllAppend (xs @ replicate (final_padding m (length xs)) (lt_nan lt))"
  by (simp add: final_sync_line_type_def final_padding_def update_value_wrapper_def numeral_2_eq_2)

text \<open>
  C3 as the code has it. \<open>_final_sync_cols\<close> raises nothing. A list that is one value
  short of the longest list gets one sentinel, a list that is two short gets two, and
  every other list is left as it is: a list three or more short stays short.
\<close>

theorem final_sync_cols_pads:
  assumes "well_formed st" and "key \<in> set (keys st)"
    and "extracted_data st key = Some lt" and "lt_value lt = AllAppend xs"
  shows "fst (final_sync_cols st) = None \<and>
         int (length xs) \<le> longest st \<and>
         values_of (snd (final_sync_cols st)) key
           = Some (AllAppend (xs @ replicate (final_padding (longest st) (length xs)) (lt_nan lt))) \<and>
         (int (length xs) + 3 \<le> longest st \<longrightarrow>
            values_of (snd (final_sync_cols st)) key = Some (AllAppend xs))"
proof -
  from assms(1) have d: "distinct (keys st)"
    and p: "list_all (\<lambda>key. extracted_data st key \<noteq> None) (keys st)"
    by (simp_all add: well_formed_def)
  from max_length_from_present [OF p, of 0] obtain m
    where m: "max_length_from 0 (keys st) (extracted_data st) = Inr m"
    by auto
  then have l: "longest st = m"
    by (simp add: longest_def)
  have loop: "for_each (final_sync_key m) (keys st) st =
           (None, st\<lparr>extracted_data :=
                     (\<lambda>k. if k \<in> set (keys st)
                          then map_option (final_sync_line_type m) (extracted_data st k)
                          else extracted_data st k)\<rparr>)"
    using d p
    by (rule for_each_entries [where g = "\<lambda>s. final_sync_line_type m", rotated 2])
       (simp_all add: final_sync_key_def)
  have v: "values_of (snd (final_sync_cols st)) key
           = Some (AllAppend (xs @ replicate (final_padding m (length xs)) (lt_nan lt)))"
    using assms(2-4)
    by (simp add: final_sync_cols_def m loop values_of_def final_sync_line_type_value)
  have "fst (final_sync_cols st) = None"
    by (simp add: final_sync_cols_def m loop)
  moreover have "int (length xs) \<le> longest st"
    using max_length_from_bound [OF m assms(2-4)] l by simp
  moreover have "int (length xs) + 3 \<le> longest st \<longrightarrow>
            values_of (snd (final_sync_cols st)) key = Some (AllAppend xs)"
    using v l by (auto simp: final_padding_def)
  ultimately show ?thesis
    using v l by simp
qed


theorem final_sync_cols_pads_witness:
  "values_after (and_then (read False True [''ITER: 1''] (with_table example_table)) final_sync_cols)
     ''elapsed'' = Inr (Some (AllAppend [VNaT]))"
proof -
  let ?r = "read False True [''ITER: 1''] (with_table example_table)"
  have returned: "fst ?r = None"
    by (simp add: example_defs read_defs)
  have wf: "well_formed (snd ?r)"
    by (simp add: example_defs read_defs well_formed_def)
  have key: "''elapsed'' \<in> set (keys (snd ?r))"
    by (simp add: example_defs read_defs)
  have lt: "extracted_data (snd ?r) ''elapsed'' = Some elapsed_line_type"
    by (simp add: example_defs read_defs)
  have xs: "lt_value elapsed_line_type = AllAppend []"
    by (simp add: elapsed_line_type_def)
  have longest: "longest (snd ?r) = 1"
    by (simp add: longest_def example_defs read_defs)
  have "?r = (None, snd ?r)"
    using returned by (simp add: prod_eq_iff)
  then have seq: "and_then ?r final_sync_cols = final_sync_cols (snd ?r)"
    by (metis and_then_None)
  obtain q s2 where fs: "final_sync_cols (snd ?r) = (q, s2)"
    by (cases "final_sync_cols (snd ?r)")
  with final_sync_cols_pads [OF wf key lt xs] longest
  have "q = None" and "values_of s2 ''elapsed'' = Some (AllAppend [VNaT])"
    by (simp_all add: final_padding_def elapsed_line_type_def)
  then show ?thesis
    by (simp add: seq fs values_after_def)
qed

text \<open>
  C3 as the claim states it fails: after three \<open>ITER\<close> lines and no \<open>ELAPSED\<close> line
  the list of \<open>elapsed\<close> is three short; the final sync returns, and leaves it empty.
\<close>

theorem final_sync_cols_counterexample:
  "values_after
     (and_then (read False True [''ITER: 1'', ''ITER: 2'', ''ITER: 3''] (with_table example_table))
        final_sync_cols) ''iter''
     = Inr (Some (AllAppend [VStr ''1'', VStr ''2'', VStr ''3''])) \<and>
   values_after
     (and_then (read False True [''ITER: 1'', ''ITER: 2'', ''ITER: 3''] (with_table example_table))
        final_sync_cols) ''elapsed''
     = Inr (Some (AllAppend []))"
  by (simp add: example_defs read_defs values_after_def values_of_def)

text \<open>
  The lists that the final sync has left unequal are refused later, by \<open>pd.DataFrame\<close>
  in \<open>_create_dataframe\<close>, when the final steps are not suppressed.
\<close>

lemma read_unequal_lengths_example:
  "frame_of (read False False [''ITER: 1'', ''ITER: 2'', ''ITER: 3''] (with_table example_table))
     = Inl ValueError"
  by (simp add: example_defs read_defs frame_of_def)

subsection \<open>The sync at an iteration boundary\<close>

lemma evolves_well_formed:
  assumes e: "evolves s s'" and wf: "well_formed s"
  shows "well_formed s'"
proof -
  from wf have "distinct (keys s)" and "list_all (\<lambda>key. extracted_data s key \<noteq> None) (keys s)"
    by (simp_all add: well_formed_def)
  with e evolves_present [OF e, of "keys s"] show ?thesis
    by (simp add: well_formed_def evolves_keys)
qed

lemma sync_ready_iff:
  "sync_ready st \<longleftrightarrow>
     (\<forall>key \<in> set (keys st). \<forall>lt. extracted_data st key = Some lt \<longrightarrow> \<not> lt_index lt \<longrightarrow>
        is_many lt \<longrightarrow> sync_bound (no_iters st) lt \<le> lt_no_values lt + 1)"
  by (auto simp: sync_ready_def list_all_iff split: option.splits)

lemma synced_iff:
  "synced st \<longleftrightarrow>
     (\<forall>key \<in> set (keys st). \<forall>lt. extracted_data st key = Some lt \<longrightarrow> \<not> lt_index lt \<longrightarrow>
        is_many lt \<longrightarrow> sync_bound (no_iters st) lt \<le> lt_no_values lt)"
  by (auto simp: synced_def list_all_iff split: option.splits)

lemma sync_ready_fresh: "no_iters st = 0 \<Longrightarrow> sync_ready st"
  by (auto simp: sync_ready_iff sync_bound_def)

lemma evolves_sync_ready:
  assumes e: "evolves s s'" and n: "no_iters s' = no_iters s" and r: "sync_ready s"
  shows "sync_ready s'"
  unfolding sync_ready_iff
proof (intro ballI allI impI)
  fix key lt'
  assume k: "key \<in> set (keys s')" and lt': "extracted_data s' key = Some lt'"
    and i: "\<not> lt_index lt'" and m: "is_many lt'"
  from e have "rel_option advances (extracted_data s key) (extracted_data s' key)"
    by (simp add: evolves_def)
  with lt' obtain lt where lt: "extracted_data s key = Some lt" and a: "advances lt lt'"
    by (cases "extracted_data s key") auto
  from a i m have "\<not> lt_index lt" "is_many lt" "lt_before_index lt' = lt_before_index lt"
    "lt_no_values lt \<le> lt_no_values lt'"
    by (auto simp: advances_def)
  moreover from k e have "key \<in> set (keys s)"
    by (simp add: evolves_keys)
  ultimately show "sync_bound (no_iters s') lt' \<le> lt_no_values lt' + 1"
    using r lt n by (fastforce simp: sync_ready_iff sync_bound_def)
qed

lemma synced_next: "synced st \<Longrightarrow> sync_ready (st\<lparr>no_iters := no_iters st + 1\<rparr>)"
  by (fastforce simp: synced_iff sync_ready_iff sync_bound_def keys_def)

lemma sync_cols_effect:
  assumes "well_formed st"
  shows "sync_cols st =
           (None, st\<lparr>extracted_data :=
                     (\<lambda>k. if k \<in> set (keys st)
                          then map_option (sync_line_type (no_iters st)) (extracted_data st k)
                          else extracted_data st k)\<rparr>)"
proof -
  from assms have d: "distinct (keys st)"
    and p: "list_all (\<lambda>key. extracted_data st key \<noteq> None) (keys st)"
    by (simp_all add: well_formed_def)
  show ?thesis
    unfolding sync_cols_def using d p
    by (rule for_each_entries [where g = "\<lambda>s. sync_line_type (no_iters s)", rotated 2])
       (simp_all add: sync_key_def)
qed

lemma sync_line_type_count:
  "\<not> lt_index lt \<Longrightarrow> is_many lt \<Longrightarrow> sync_bound n lt \<le> lt_no_values lt + 1 \<Longrightarrow>
   lt_no_values (sync_line_type n lt) = max (lt_no_values lt) (sync_bound n lt)"
  by (auto simp: sync_line_type_def sync_bound_def update_value_wrapper_def is_many_def
           split: accumulator.splits)

lemma sync_line_type_value:
  "\<not> lt_index lt \<Longrightarrow> lt_value lt = AllAppend xs \<Longrightarrow> sync_bound n lt \<le> lt_no_values lt + 1 \<Longrightarrow>
   lt_value (sync_line_type n lt)
     = AllAppend (xs @ replicate (sync_bound n lt - lt_no_values lt) (lt_nan lt))"
proof -
  assume a: "\<not> lt_index lt" "lt_value lt = AllAppend xs" "sync_bound n lt \<le> lt_no_values lt + 1"
  show ?thesis
  proof (cases "lt_no_values lt < sync_bound n lt")
    case True
    with a(3) have "sync_bound n lt - lt_no_values lt = 1" by simp
    with True a show ?thesis
      by (simp add: sync_line_type_def sync_bound_def update_value_wrapper_def is_many_def)
  next
    case False
    with a show ?thesis
      by (simp add: sync_line_type_def sync_bound_def is_many_def)
  qed
qed

text \<open>
  C4. When \<open>_sync_cols\<close> is called (every list that is not the index being at most one
  value short, as it is at each call), it raises nothing, leaves the iteration counter as
  it is, and every list that is not the index then counts at least
  \<open>_no_iters + int(before_index)\<close> values: a list that was below that number has been
  given the sentinel and now counts exactly that number, and a list that was not below it
  is unchanged. The counter is the one that \<open>_sync_cols\<close> reads: the iterations counted
  before the line that triggers the sync, which is counted right after it.
\<close>

theorem sync_cols_bound:
  assumes wf: "well_formed st" and ready: "sync_ready st"
    and key: "key \<in> set (keys st)" and lt: "extracted_data st key = Some lt"
    and not_index: "\<not> lt_index lt" and many: "lt_value lt = AllAppend xs"
  shows "fst (sync_cols st) = None \<and>
         no_iters (snd (sync_cols st)) = no_iters st \<and>
         count_of (snd (sync_cols st)) key
           = Some (max (lt_no_values lt) (sync_bound (no_iters st) lt)) \<and>
         values_of (snd (sync_cols st)) key
           = Some (AllAppend (xs @ replicate (sync_bound (no_iters st) lt - lt_no_values lt)
                                   (lt_nan lt)))"
proof -
  from many have m: "is_many lt"
    by (simp add: is_many_def)
  with ready key lt not_index have b: "sync_bound (no_iters st) lt \<le> lt_no_values lt + 1"
    by (simp add: sync_ready_iff)
  show ?thesis
    using key lt
    by (simp add: sync_cols_effect [OF wf] count_of_def values_of_def
          sync_line_type_count [OF not_index m b] sync_line_type_value [OF not_index many b])
qed

theorem sync_cols_bound_witness:
  "count_of (snd (sync_cols (snd (read False True [''ITER: 1'', ''ELAPSED: 0:00:01'']
                                  (with_table example_table))))) ''iter'' = Some 2 \<and>
   values_of (snd (sync_cols (snd (read False True [''ITER: 1'', ''ELAPSED: 0:00:01'']
                                  (with_table example_table))))) ''iter''
     = Some (AllAppend [VStr ''1'', VStr []])"
proof -
  let ?st = "snd (read False True [''ITER: 1'', ''ELAPSED: 0:00:01''] (with_table example_table))"
  let ?lt = "iter_line_type\<lparr>lt_value := AllAppend [VStr ''1''], lt_no_values := 1\<rparr>"
  have wf: "well_formed ?st"
    by (simp add: example_defs read_defs well_formed_def)
  have ready: "sync_ready ?st"
    by (simp add: example_defs read_defs sync_ready_def sync_bound_def)
  have key: "''iter'' \<in> set (keys ?st)"
    by (simp add: example_defs read_defs)
  have lt: "extracted_data ?st ''iter'' = Some ?lt"
    by (simp add: example_defs read_defs)
  have not_index: "\<not> lt_index ?lt" and many: "lt_value ?lt = AllAppend [VStr ''1'']"
    by (simp_all add: iter_line_type_def)
  have iters: "no_iters ?st = 1"
    by (simp add: example_defs read_defs)
  from sync_cols_bound [OF wf ready key lt not_index many] iters show ?thesis
    by (simp add: sync_bound_def iter_line_type_def)
qed

lemma sync_cols_synced:
  assumes wf: "well_formed st" and ready: "sync_ready st"
  shows "fst (sync_cols st) = None \<and> synced (snd (sync_cols st))"
proof -
  have "synced (snd (sync_cols st))"
    unfolding synced_iff
  proof (intro ballI allI impI)
    fix key lt'
    assume k: "key \<in> set (keys (snd (sync_cols st)))"
      and lt': "extracted_data (snd (sync_cols st)) key = Some lt'"
      and i: "\<not> lt_index lt'" and m: "is_many lt'"
    from k have k0: "key \<in> set (keys st)"
      by (simp add: sync_cols_effect [OF wf] keys_def)
    with lt' obtain lt where lt: "extracted_data st key = Some lt"
      and eq: "lt' = sync_line_type (no_iters st) lt"
      by (auto simp: sync_cols_effect [OF wf])
    have a: "advances lt lt'"
      by (simp add: eq)
    with i m have i0: "\<not> lt_index lt" and m0: "is_many lt"
      and bi: "lt_before_index lt' = lt_before_index lt"
      by (auto simp: advances_def)
    from ready k0 lt i0 m0 have b: "sync_bound (no_iters st) lt \<le> lt_no_values lt + 1"
      by (simp add: sync_ready_iff)
    have "lt_no_values lt' = max (lt_no_values lt) (sync_bound (no_iters st) lt)"
      unfolding eq by (rule sync_line_type_count [OF i0 m0 b])
    moreover have "sync_bound (no_iters st) lt' = sync_bound (no_iters st) lt"
      by (simp add: sync_bound_def bi)
    moreover have "no_iters (snd (sync_cols st)) = no_iters st"
      by (simp add: sync_cols_effect [OF wf])
    ultimately show "sync_bound (no_iters (snd (sync_cols st))) lt' \<le> lt_no_values lt'"
      by simp
  qed
  then show ?thesis
    by (simp add: sync_cols_effect [OF wf])
qed


subsection \<open>The lists are ready whenever the sync is called\<close>

text \<open>
  The hypothesis of the sync holds at every call: an object is ready when \<open>__init__\<close>
  has set its dictionaries, it stays ready through every read (forced or not, returning
  or raising), and the state that \<open>_update_line_types\<close> hands to \<open>_sync_cols\<close> after
  storing the index line is ready.
\<close>

lemma stored_sync_ready:
  assumes "ready_object st" and "extracted_data st key = Some lt"
  shows "ready_object (st\<lparr>extracted_data := (extracted_data st)(key \<mapsto> update_value_wrapper lt v)\<rparr>)"
proof -
  let ?s1 = "st\<lparr>extracted_data := (extracted_data st)(key \<mapsto> update_value_wrapper lt v)\<rparr>"
  have "evolves st ?s1"
    using assms(2) by (simp add: evolves_entry)
  moreover have "no_iters ?s1 = no_iters st"
    by simp
  ultimately show ?thesis
    using assms(1) by (auto simp: ready_object_def intro: evolves_well_formed evolves_sync_ready)
qed

lemma store_line_ready:
  assumes inv: "ready_object st" and run: "store_line raw_line key st = (r, st')"
  shows "ready_object st'"
proof (cases "extracted_data st key")
  case None
  with run inv show ?thesis by (simp add: store_line_def)
next
  case (Some lt)
  show ?thesis
  proof (cases "end_of_line raw_line (lt_prefix lt)")
    case (Inl e)
    with run inv Some show ?thesis by (simp add: store_line_def)
  next
    case eol: (Inr eol)
    show ?thesis
    proof (cases "process_line_wrapper lt eol")
      case (Inl e)
      with run inv Some eol show ?thesis by (simp add: store_line_def)
    next
      case (Inr v)
      let ?s1 = "st\<lparr>extracted_data := (extracted_data st)(key \<mapsto> update_value_wrapper lt v)\<rparr>"
      have r1: "ready_object ?s1"
        using inv Some by (rule stored_sync_ready)
      show ?thesis
      proof (cases "lt_index lt")
        case False
        with run Some eol Inr r1 show ?thesis by (simp add: store_line_def)
      next
        case True
        from r1 have wf1: "well_formed ?s1" and sr1: "sync_ready ?s1"
          by (simp_all add: ready_object_def)
        obtain q s2 where sc: "sync_cols ?s1 = (q, s2)"
          by (cases "sync_cols ?s1")
        with sync_cols_synced [OF wf1 sr1] have q: "q = None" and s2: "synced s2"
          by simp_all
        from sc have "evolves ?s1 s2"
          by (rule sync_cols_evolves)
        with wf1 have wf2: "well_formed s2"
          by (auto intro: evolves_well_formed)
        have "evolves s2 (s2\<lparr>no_iters := no_iters s2 + 1\<rparr>)"
          by (rule evolves_no_iters)
        with wf2 have "well_formed (s2\<lparr>no_iters := no_iters s2 + 1\<rparr>)"
          by (auto intro: evolves_well_formed)
        with synced_next [OF s2] have "ready_object (s2\<lparr>no_iters := no_iters s2 + 1\<rparr>)"
          by (simp add: ready_object_def)
        moreover from run Some eol Inr True sc q
        have "st' = s2\<lparr>no_iters := no_iters s2 + 1\<rparr>"
          by (simp add: store_line_def)
        ultimately show ?thesis by simp
      qed
    qed
  qed
qed

lemma process_key_ready:
  "ready_object st \<Longrightarrow> process_key raw_line key st = (r, st') \<Longrightarrow> ready_object st'"
  by (auto simp: process_key_def split: option.splits if_splits dest: store_line_ready)

lemma for_each_ready:
  assumes "\<And>x s r s'. ready_object s \<Longrightarrow> body x s = (r, s') \<Longrightarrow> ready_object s'"
  shows "ready_object st \<Longrightarrow> for_each body xs st = (r, st') \<Longrightarrow> ready_object st'"
  using for_each_rel [where R = "\<lambda>s s'. ready_object s \<longrightarrow> ready_object s'" and body = body]
    assms by blast

lemma same_iters_ready:
  "evolves s s' \<Longrightarrow> no_iters s' = no_iters s \<Longrightarrow> ready_object s \<Longrightarrow> ready_object s'"
  by (auto simp: ready_object_def intro: evolves_well_formed evolves_sync_ready)

lemma process_raw_line_ready:
  assumes inv: "ready_object st" and run: "process_raw_line raw_line st = (r, st')"
  shows "ready_object st'"
  using run unfolding process_raw_line_def
proof (cases rule: and_then_cases)
  case (raised e)
  with inv show ?thesis
    by (auto elim!: for_each_ready [rotated 2] intro: process_key_ready)
next
  case (went_on st1)
  with inv have "ready_object st1"
    by (auto elim!: for_each_ready [rotated 2] intro: process_key_ready)
  moreover have "evolves st1 (st1\<lparr>no_lines := no_lines st1 + 1\<rparr>)"
    by (rule evolves_no_lines)
  ultimately show ?thesis
    using went_on(2) by (auto intro: same_iters_ready)
qed

lemma update_line_types_ready:
  "ready_object st \<Longrightarrow> update_line_types raw_data st = (r, st') \<Longrightarrow> ready_object st'"
  unfolding update_line_types_def
  by (erule for_each_ready [rotated 1]) (auto intro: process_raw_line_ready)

lemma final_sync_cols_no_iters: "final_sync_cols s = (r, s') \<Longrightarrow> no_iters s' = no_iters s"
  unfolding final_sync_cols_def
  by (auto split: sum.splits elim!: for_each_rel [rotated -1]
           simp: final_sync_key_def split: option.splits)

lemma set_attributes_no_iters: "set_attributes s = (r, s') \<Longrightarrow> no_iters s' = no_iters s"
  unfolding set_attributes_def
  by (erule for_each_rel [rotated -1]) (auto simp: set_attribute_def split: option.splits)

lemma create_dataframe_no_iters: "create_dataframe s = (r, s') \<Longrightarrow> no_iters s' = no_iters s"
  by (auto simp: create_dataframe_def split: sum.splits)

lemma final_steps_no_iters:
  "and_then (and_then (final_sync_cols s) set_attributes) create_dataframe = (r, s') \<Longrightarrow>
   no_iters s' = no_iters s"
  by (elim and_then_cases)
     (auto dest!: final_sync_cols_no_iters set_attributes_no_iters create_dataframe_no_iters)

lemma well_formed_init:
  assumes "distinct (map fst (data_to_extract st))"
  shows "ready_object (init_line_types (init_counters st))"
proof -
  have "list_all (\<lambda>key. map_of (data_to_extract st) key \<noteq> None) (map fst (data_to_extract st))"
    by (auto simp: list_all_iff map_of_eq_None_iff)
  with assms show ?thesis
    by (simp add: ready_object_def well_formed_def keys_def init_line_types_def init_counters_def
          sync_ready_fresh)
qed

lemma del_attributes_only:
  "del_attributes s = (r, s') \<Longrightarrow> \<exists>A. s' = s\<lparr>attributes := A\<rparr>"
  unfolding del_attributes_def
proof (erule for_each_rel [rotated -1], goal_cases)
  case (1 x s r s')
  then show ?case
    by (auto simp: del_attribute_def split: if_splits intro: exI [of _ "attributes s"])
next
  case (2 s)
  show ?case by (rule exI [of _ "attributes s"]) simp
next
  case (3 a b c)
  then show ?case by auto
qed

lemma attributes_ready: "ready_object s \<Longrightarrow> ready_object (s\<lparr>attributes := A\<rparr>)"
  by (rule same_iters_ready [rotated 2]) (simp_all add: evolves_def option.rel_refl)

lemma df_ready: "ready_object s \<Longrightarrow> ready_object (s\<lparr>df := d\<rparr>)"
  by (rule same_iters_ready [rotated 2]) (simp_all add: evolves_def option.rel_refl)

lemma deleting_ready:
  assumes inv: "ready_object st"
    and run: "and_then (del_attributes st) del_dataframe = (q, s0)"
  shows "ready_object s0 \<and> data_to_extract s0 = data_to_extract st"
  using run
proof (cases rule: and_then_cases)
  case (raised e)
  with inv show ?thesis
    by (auto dest!: del_attributes_only intro: attributes_ready)
next
  case (went_on s)
  then obtain A where "s = st\<lparr>attributes := A\<rparr>"
    by (auto dest!: del_attributes_only)
  with went_on(2) inv show ?thesis
    by (auto simp: del_dataframe_def split: option.splits intro: attributes_ready df_ready)
qed

lemma read_ready:
  assumes inv: "ready_object st"
    and run: "read force_reread suppress_final_steps raw_data st = (r, st')"
  shows "ready_object st'"
proof -
  let ?first = "if force_reread = True
             then and_then (and_then (del_attributes st) del_dataframe)
                    (\<lambda>st'. (None, init_line_types (init_counters st')))
             else (None, st)"
  have first: "ready_object s1" if "?first = (q, s1)" for q s1
  proof (cases force_reread)
    case False
    with that inv show ?thesis by simp
  next
    case True
    from inv have d: "distinct (map fst (data_to_extract st))"
      by (simp add: ready_object_def well_formed_def keys_def)
    from that True
    have "and_then (and_then (del_attributes st) del_dataframe)
            (\<lambda>st'. (None, init_line_types (init_counters st'))) = (q, s1)"
      by simp
    then show ?thesis
    proof (cases rule: and_then_cases)
      case (raised e)
      with inv show ?thesis
        by (auto dest: deleting_ready)
    next
      case (went_on s0)
      with inv have "data_to_extract s0 = data_to_extract st"
        by (auto dest: deleting_ready)
      with d went_on(2) show ?thesis
        by (auto intro: well_formed_init)
    qed
  qed
  from run show ?thesis
    unfolding read_def
  proof (cases rule: and_then_cases)
    case (raised e)
    then show ?thesis by (auto intro: first)
  next
    case (went_on s1)
    then have r1: "ready_object s1"
      by (auto intro: first)
    from went_on(2) show ?thesis
    proof (cases rule: and_then_cases)
      case (raised e)
      with r1 show ?thesis by (auto intro: update_line_types_ready)
    next
      case (went_on s2)
      with r1 have r2: "ready_object s2"
        by (auto intro: update_line_types_ready)
      show ?thesis
      proof (cases suppress_final_steps)
        case True
        with went_on(2) r2 show ?thesis by simp
      next
        case False
        with went_on(2) have
          f: "and_then (and_then (final_sync_cols s2) set_attributes) create_dataframe = (r, st')"
          by simp
        then have "evolves s2 st'" and "no_iters st' = no_iters s2"
          by (auto dest: final_steps_evolves final_steps_no_iters)
        with r2 show ?thesis
          by (auto intro: same_iters_ready)
      qed
    qed
  qed
qed

lemma before_read_ready:
  assumes "distinct (map fst (lf1_unsteady_data_to_extract params))"
    and "distinct (map fst (lf1_steady_data_to_extract params))"
    and "distinct (map fst (lf2_data_to_extract params))"
  shows "ready_object (before_read params cls)"
proof -
  have "distinct (map fst (data_to_extract (init_params_and_progress params cls (init_counters blank))))"
    using assms by (cases cls) (auto simp: init_params_and_progress_def)
  then have "ready_object
      (init_line_types (init_counters (init_params_and_progress params cls (init_counters blank))))"
    by (rule well_formed_init)
  moreover have "init_counters (init_params_and_progress params cls (init_counters blank))
      = init_params_and_progress params cls (init_counters blank)"
    by (cases cls) (auto simp: init_params_and_progress_def init_counters_def)
  ultimately show ?thesis
    by (simp add: before_read_def)
qed



subsection \<open>The number of iterations counted\<close>

lemma evolves_marks_iteration:
  assumes "evolves s s'"
  shows "marks_iteration s' raw_line = marks_iteration s raw_line"
proof
  fix key
  from assms have "rel_option advances (extracted_data s key) (extracted_data s' key)"
    by (simp add: evolves_def)
  then show "marks_iteration s' raw_line key = marks_iteration s raw_line key"
    by (cases "extracted_data s key"; cases "extracted_data s' key")
       (auto simp: marks_iteration_def advances_def)
qed

lemma evolves_iterations_in: "evolves s s' \<Longrightarrow> iterations_in s' raw_lines = iterations_in s raw_lines"
  by (simp add: iterations_in_def evolves_marks_iteration evolves_keys)

lemma sync_cols_no_iters: "sync_cols s = (r, s') \<Longrightarrow> no_iters s' = no_iters s"
  unfolding sync_cols_def
  by (erule for_each_rel [rotated -1]) (auto simp: sync_key_def split: option.splits)

lemma store_line_no_iters:
  assumes st: "store_line raw_line key s = (None, s')" and lt: "extracted_data s key = Some lt"
  shows "no_iters s' = no_iters s + (if lt_index lt then 1 else 0)"
proof -
  from st lt obtain eol where eol: "end_of_line raw_line (lt_prefix lt) = Inr eol"
    by (cases "end_of_line raw_line (lt_prefix lt)") (auto simp: store_line_def)
  from st lt eol obtain p where p: "process_line_wrapper lt eol = Inr p"
    by (cases "process_line_wrapper lt eol") (auto simp: store_line_def)
  let ?s1 = "s\<lparr>extracted_data := (extracted_data s)(key \<mapsto> update_value_wrapper lt p)\<rparr>"
  from st lt eol p have after:
    "(if lt_index lt
      then and_then (sync_cols ?s1) (\<lambda>st2. (None, st2\<lparr>no_iters := no_iters st2 + 1\<rparr>))
      else (None, ?s1)) = (None, s')"
    by (simp add: store_line_def)
  show ?thesis
  proof (cases "lt_index lt")
    case False
    with after show ?thesis by auto
  next
    case True
    with after have "and_then (sync_cols ?s1) (\<lambda>st2. (None, st2\<lparr>no_iters := no_iters st2 + 1\<rparr>)) = (None, s')"
      by simp
    then obtain s2 where "sync_cols ?s1 = (None, s2)" and "s' = s2\<lparr>no_iters := no_iters s2 + 1\<rparr>"
      by (cases rule: and_then_cases) auto
    with True show ?thesis by (auto dest: sync_cols_no_iters)
  qed
qed

lemma process_key_no_iters:
  assumes "process_key raw_line key s = (None, s')"
  shows "no_iters s' = no_iters s + (if marks_iteration s raw_line key then 1 else 0)"
proof (cases "extracted_data s key")
  case None
  with assms show ?thesis by (simp add: process_key_def)
next
  case (Some lt)
  show ?thesis
  proof (cases "startswith raw_line (lt_prefix lt)")
    case False
    with assms Some show ?thesis by (simp add: process_key_def marks_iteration_def)
  next
    case True
    with assms Some have "store_line raw_line key s = (None, s')"
      by (simp add: process_key_def)
    from store_line_no_iters [OF this Some] Some True show ?thesis
      by (simp add: marks_iteration_def)
  qed
qed

lemma process_keys_no_iters:
  "for_each (process_key raw_line) ks s = (None, s') \<Longrightarrow>
   no_iters s' = no_iters s + length (filter (marks_iteration s raw_line) ks)"
proof (induction ks arbitrary: s)
  case Nil
  then show ?case by simp
next
  case (Cons key ks)
  obtain r1 s1 where b: "process_key raw_line key s = (r1, s1)"
    by (cases "process_key raw_line key s")
  with Cons.prems have r1: "r1 = None" and rest: "for_each (process_key raw_line) ks s1 = (None, s')"
    by (auto split: option.splits)
  from b r1 have b': "process_key raw_line key s = (None, s1)" by simp
  from process_key_evolves [OF b'] have same: "marks_iteration s1 raw_line = marks_iteration s raw_line"
    by (rule evolves_marks_iteration)
  from Cons.IH [OF rest] process_key_no_iters [OF b'] same show ?case by simp
qed

lemma process_raw_line_no_iters:
  assumes "process_raw_line raw_line s = (None, s')"
  shows "no_iters s' = no_iters s + length (filter (marks_iteration s raw_line) (keys s))"
  using assms unfolding process_raw_line_def
  by (cases rule: and_then_cases) (auto dest: process_keys_no_iters)

lemma process_raw_lines_no_iters:
  "for_each process_raw_line raw_lines s = (None, s') \<Longrightarrow>
   no_iters s' = no_iters s + iterations_in s raw_lines"
proof (induction raw_lines arbitrary: s)
  case Nil
  then show ?case by (simp add: iterations_in_def)
next
  case (Cons raw_line raw_lines)
  obtain r1 s1 where b: "process_raw_line raw_line s = (r1, s1)"
    by (cases "process_raw_line raw_line s")
  with Cons.prems have r1: "r1 = None" and rest: "for_each process_raw_line raw_lines s1 = (None, s')"
    by (auto split: option.splits)
  from b r1 have b': "process_raw_line raw_line s = (None, s1)" by simp
  from process_raw_line_evolves [OF b'] have "iterations_in s1 raw_lines = iterations_in s raw_lines"
    by (rule evolves_iterations_in)
  with Cons.IH [OF rest] process_raw_line_no_iters [OF b'] show ?case
    by (simp add: iterations_in_def)
qed

lemma same_iterations_in:
  assumes "extracted_data s = extracted_data t" and "data_to_extract s = data_to_extract t"
  shows "iterations_in s raw_lines = iterations_in t raw_lines"
proof -
  from assms(1) have "marks_iteration s = marks_iteration t"
    by (intro ext) (simp add: marks_iteration_def)
  with assms(2) show ?thesis
    by (simp add: iterations_in_def keys_def)
qed

lemma restart_iterations_in:
  assumes "and_then (and_then (del_attributes s) del_dataframe)
             (\<lambda>st'. (None, init_line_types (init_counters st'))) = (None, s1)"
  shows "no_lines s1 = 0 \<and> no_iters s1 = 0 \<and>
         iterations_in s1 raw_lines = iterations_in (init_line_types s) raw_lines"
proof -
  from assms obtain s0 where d: "and_then (del_attributes s) del_dataframe = (None, s0)"
    and s1: "s1 = init_line_types (init_counters s0)"
    by (cases rule: and_then_cases) auto
  from d obtain sa where a: "del_attributes s = (None, sa)" and f: "del_dataframe sa = (None, s0)"
    by (cases rule: and_then_cases) auto
  from del_attributes_only [OF a] obtain A where sa: "sa = s\<lparr>attributes := A\<rparr>" by blast
  from f have "s0 = sa\<lparr>df := None\<rparr>"
    by (auto simp: del_dataframe_def split: option.splits)
  with sa s1 have "s1 = init_line_types (init_counters (s\<lparr>attributes := A, df := None\<rparr>))"
    by simp
  then have zero: "no_lines s1 = 0" "no_iters s1 = 0"
    and ed: "extracted_data s1 = extracted_data (init_line_types s)"
    and tbl: "data_to_extract s1 = data_to_extract (init_line_types s)"
    by (simp_all add: init_line_types_def init_counters_def)
  from same_iterations_in [OF ed tbl] zero show ?thesis
    by simp
qed

lemma read_no_iters:
  assumes "read force_reread suppress_final_steps raw_data s = (None, s')"
  shows "no_iters s' = (if force_reread then 0 else no_iters s)
           + iterations_in (if force_reread then init_line_types s else s)
               (drop (if force_reread then 0 else no_lines s) raw_data)"
proof -
  from assms obtain s1 where
    first: "(if force_reread = True
             then and_then (and_then (del_attributes s) del_dataframe)
                    (\<lambda>st'. (None, init_line_types (init_counters st')))
             else (None, s)) = (None, s1)"
    and rest: "and_then (update_line_types raw_data s1)
       (\<lambda>st2. if \<not> suppress_final_steps
              then and_then (and_then (final_sync_cols st2) set_attributes) create_dataframe
              else (None, st2)) = (None, s')"
    unfolding read_def by (elim and_then_cases) auto
  from rest obtain s2 where upd: "update_line_types raw_data s1 = (None, s2)"
    and fin: "(if \<not> suppress_final_steps
              then and_then (and_then (final_sync_cols s2) set_attributes) create_dataframe
              else (None, s2)) = (None, s')"
    by (elim and_then_cases) auto
  have same: "no_iters s' = no_iters s2"
    using fin by (auto split: if_splits dest: final_steps_no_iters)
  from upd have counted: "no_iters s2 = no_iters s1 + iterations_in s1 (drop (no_lines s1) raw_data)"
    unfolding update_line_types_def by (rule process_raw_lines_no_iters)
  show ?thesis
  proof (cases force_reread)
    case False
    with first have "s1 = s" by simp
    with same counted False show ?thesis by simp
  next
    case True
    with first have "and_then (and_then (del_attributes s) del_dataframe)
             (\<lambda>st'. (None, init_line_types (init_counters st'))) = (None, s1)"
      by simp
    from restart_iterations_in [OF this] same counted True show ?thesis by simp
  qed
qed

text \<open>
  C8. The counters \<open>_no_lines\<close> and \<open>_no_iters\<close> never decrease across a read that is
  not a forced re-read, whether it returns or raises. A read that returns has counted
  every raw line it was given beyond those already read, once each, whether or not the
  line matched a line type, and one iteration for each of these lines and each index
  line type whose prefix the line starts with. A forced re-read counts both from zero
  again, over all the raw lines.
\<close>

theorem read_counters:
  assumes "read force_reread suppress_final_steps raw_data st = (r, st')"
  shows "(\<not> force_reread \<longrightarrow> no_lines st \<le> no_lines st' \<and> no_iters st \<le> no_iters st') \<and>
         (r = None \<longrightarrow>
            no_lines st' = (if force_reread then 0 else no_lines st)
              + length (drop (if force_reread then 0 else no_lines st) raw_data) \<and>
            no_iters st' = (if force_reread then 0 else no_iters st)
              + iterations_in (if force_reread then init_line_types st else st)
                  (drop (if force_reread then 0 else no_lines st) raw_data))"
proof (intro conjI impI)
  assume "\<not> force_reread"
  with assms have "evolves st st'" by (auto dest: read_evolves)
  then show "no_lines st \<le> no_lines st'" and "no_iters st \<le> no_iters st'"
    by (simp_all add: evolves_def)
next
  assume "r = None"
  with assms have returned: "read force_reread suppress_final_steps raw_data st = (None, st')"
    by simp
  from returned show "no_lines st' = (if force_reread then 0 else no_lines st)
              + length (drop (if force_reread then 0 else no_lines st) raw_data)"
    by (rule read_no_lines)
  from returned show "no_iters st' = (if force_reread then 0 else no_iters st)
              + iterations_in (if force_reread then init_line_types st else st)
                  (drop (if force_reread then 0 else no_lines st) raw_data)"
    by (rule read_no_iters)
qed

lemmas restart_defs =
  LF_init_def before_read_def init_params_and_progress_def example_params_def
  del_attributes_def del_attribute_def del_dataframe_def

theorem read_counters_witness:
  "fst (LF_init example_params (LF1 False) [''ITER: 1'', ''no such line'', ''ELAPSED: 0:00:01''])
     = None \<and>
   no_lines (snd (LF_init example_params (LF1 False)
                    [''ITER: 1'', ''no such line'', ''ELAPSED: 0:00:01''])) = 3 \<and>
   no_iters (snd (LF_init example_params (LF1 False)
                    [''ITER: 1'', ''no such line'', ''ELAPSED: 0:00:01''])) = 1 \<and>
   fst (read True False [''ITER: 1'', ''no such line'', ''ELAPSED: 0:00:01'']
          (snd (LF_init example_params (LF1 False)
                  [''ITER: 1'', ''no such line'', ''ELAPSED: 0:00:01'']))) = None \<and>
   no_lines (snd (read True False [''ITER: 1'', ''no such line'', ''ELAPSED: 0:00:01'']
          (snd (LF_init example_params (LF1 False)
                  [''ITER: 1'', ''no such line'', ''ELAPSED: 0:00:01''])))) = 3 \<and>
   no_iters (snd (read True False [''ITER: 1'', ''no such line'', ''ELAPSED: 0:00:01'']
          (snd (LF_init example_params (LF1 False)
                  [''ITER: 1'', ''no such line'', ''ELAPSED: 0:00:01''])))) = 1"
proof -
  let ?raw = "[''ITER: 1'', ''no such line'', ''ELAPSED: 0:00:01'']"
  let ?made = "read False False ?raw (before_read example_params (LF1 False))"
  let ?again = "read True False ?raw (snd ?made)"
  have made: "fst ?made = None"
    by (simp add: restart_defs example_defs read_defs)
  have "?made = (fst ?made, snd ?made)"
    by simp
  from read_counters [OF this] made
  have first: "no_lines (snd ?made) = 3 \<and> no_iters (snd ?made) = 1"
    by (simp add: restart_defs example_defs iterations_in_def marks_iteration_def keys_def)
  have table: "data_to_extract (snd ?made) = example_table @ [(''progress'', progress_line_type)]"
    by (simp add: restart_defs example_defs read_defs)
  have again: "fst ?again = None"
    by (simp add: restart_defs example_defs read_defs)
  have "?again = (fst ?again, snd ?again)"
    by simp
  from read_counters [OF this] again
  have second: "no_lines (snd ?again) = 3 \<and> no_iters (snd ?again) = 1"
    by (simp add: table init_line_types_def iterations_in_def marks_iteration_def keys_def
          example_table_def iter_line_type_def elapsed_line_type_def progress_line_type_def)
  from made first again second show ?thesis
    by (simp only: LF_init_def simp_thms)
qed

subsection \<open>The progress reported after a read\<close>

lemma latest_is_other [simp]:
  "key' \<noteq> key \<Longrightarrow>
   latest_is (s\<lparr>extracted_data := (extracted_data s)(key' \<mapsto> b)\<rparr>) key lt v = latest_is s key lt v"
  by (simp add: latest_is_def)

lemma latest_is_no_iters [simp]: "latest_is (s\<lparr>no_iters := n\<rparr>) key lt v = latest_is s key lt v"
  by (simp add: latest_is_def)


lemma latest_is_attributes [simp]: "latest_is (s\<lparr>attributes := A\<rparr>) key lt v = latest_is s key lt v"
  by (simp add: latest_is_def)

lemma latest_is_df [simp]: "latest_is (s\<lparr>df := d\<rparr>) key lt v = latest_is s key lt v"
  by (simp add: latest_is_def)






















lemma latest_value_unmatched:
  "list_all (\<lambda>raw_line. \<not> startswith raw_line (lt_prefix lt)) raw_lines \<Longrightarrow>
   latest_value lt v raw_lines = v"
  by (induction raw_lines) simp_all

lemma before_read_progress:
  "extracted_data (before_read params cls) ''progress'' = map_of (data_to_extract (before_read params cls)) ''progress''"
  by (simp add: before_read_def init_line_types_def)







subsection \<open>Deriving the table\<close>

lemmas get_value_defs =
  get_value_def frame_of_list_def empty_frame_def set_axis_def drop_column_def keep_cells_def
  rename_column_def list_remove_def column_to_remove_def

text \<open>
  C9. The claim: deriving the table twice from the same accumulators gives the same
  table and leaves every accumulator, the list of subheaders included, unchanged.
  \<open>AllData.get_value\<close> breaks it for the column it is written to remove: the first call
  drops the column \<open>simulated_duplicate\<close> from the frame and removes the name from
  \<open>self._subheaders\<close> too, so the second call, on the same values, has one name too few
  for the columns and \<open>set_axis\<close> raises \<open>ValueError\<close>.
\<close>

theorem get_value_twice:
  "get_value pd_mixed pandas_index None None plot_data
     = (Inr (Frame \<lparr>columns = [Name ''inflow''], rows = [[VFloat (Fnum 2)]]\<rparr>),
        plot_data\<lparr>subheaders := Some [''inflow'']\<rparr>) \<and>
   get_value pd_mixed pandas_index None None (plot_data\<lparr>subheaders := Some [''inflow'']\<rparr>)
     = (Inl ValueError, plot_data\<lparr>subheaders := Some [''inflow'']\<rparr>)"
  by (simp add: get_value_defs plot_data_def)

text \<open>
  \<open>LF._create_dataframe\<close> does project: it changes nothing but \<open>df\<close>, and run again it
  builds the same frame.
\<close>

lemma create_dataframe_projects:
  "create_dataframe st = (r, st') \<Longrightarrow>
   extracted_data st' = extracted_data st \<and> data_to_extract st' = data_to_extract st \<and>
   (r = None \<longrightarrow> create_dataframe st' = (None, st'))"
  by (auto simp: create_dataframe_def keys_def split: sum.splits)

end
